theory Spec2Isabelle
  imports Main
begin

section \<open>Python values, strings and dictionaries\<close>

text \<open>
  The library under study is \<^verbatim>\<open>pyopt/pyopt.py\<close> (version 0.84).  A Python \<^verbatim>\<open>str\<close> is
  modelled as a \<^typ>\<open>string\<close> whose characters are the code points below 256.
\<close>

datatype pyval = PyStr string | PyInt int | PyBool bool

text \<open>
  The exceptions that the code can raise.  \<^verbatim>\<open>PyoptError\<close>, \<^verbatim>\<open>PrintHelp\<close> and
  \<^verbatim>\<open>NotEnoughArgs\<close> are the three classes the module declares; the others are
  built-in exceptions (\<^verbatim>\<open>GetoptError\<close> belongs to the standard \<^verbatim>\<open>getopt\<close> module).
  The string is the exception's message; a \<^verbatim>\<open>KeyError\<close> carries the missing key, and an
  \<^verbatim>\<open>UnboundLocalError\<close> or \<^verbatim>\<open>AttributeError\<close> the name that is not bound.
\<close>

datatype exn =
    PyoptError string
  | PrintHelp string
  | NotEnoughArgs string
  | NotImplementedError string
  | IndexError string
  | KeyError string
  | ValueError string
  | UnboundLocalError string
  | GetoptError string
  | AttributeError string

text \<open>
  \<^verbatim>\<open>class PyoptError(Exception)\<close>, \<^verbatim>\<open>class PrintHelp(PyoptError)\<close>,
  \<^verbatim>\<open>class NotEnoughArgs(PyoptError)\<close>: what \<^verbatim>\<open>except PyoptError\<close> catches.
\<close>

fun is_PyoptError :: "exn \<Rightarrow> bool" where
  "is_PyoptError (PyoptError m) = True"
| "is_PyoptError (PrintHelp m) = True"
| "is_PyoptError (NotEnoughArgs m) = True"
| "is_PyoptError e = False"

text \<open>\<^verbatim>\<open>s.startswith(p)\<close>.\<close>

definition startswith :: "string \<Rightarrow> string \<Rightarrow> bool" where
  "startswith s p = (take (length p) s = p)"

text \<open>\<^verbatim>\<open>sep.join(xs)\<close>.\<close>

fun join :: "string \<Rightarrow> string list \<Rightarrow> string" where
  "join sep [] = []"
| "join sep [x] = x"
| "join sep (x # y # ys) = x @ sep @ join sep (y # ys)"

text \<open>\<^verbatim>\<open>"%d" % n\<close> for a natural number and for an integer.\<close>

fun str_nat :: "nat \<Rightarrow> string" where
  "str_nat n =
     (if n < 10 then [char_of (48 + n)]
      else str_nat (n div 10) @ [char_of (48 + n mod 10)])"

declare str_nat.simps [simp del]

definition str_int :: "int \<Rightarrow> string" where
  "str_int i = (if i < 0 then CHR ''-'' # str_nat (nat (- i)) else str_nat (nat i))"

text \<open>
  A Python \<^verbatim>\<open>dict\<close> keeps its keys in insertion order; assigning to a key that is
  present replaces the value in place.  It is modelled as an association list without
  repeated keys.
\<close>

type_synonym ('k, 'v) dict = "('k \<times> 'v) list"

fun dict_set :: "('k, 'v) dict \<Rightarrow> 'k \<Rightarrow> 'v \<Rightarrow> ('k, 'v) dict" where
  "dict_set [] k v = [(k, v)]"
| "dict_set ((k', v') # d) k v =
     (if k' = k then (k, v) # d else (k', v') # dict_set d k v)"

definition dict_get :: "('k, 'v) dict \<Rightarrow> 'k \<Rightarrow> 'v option" where
  "dict_get d k = map_of d k"

definition dict_has :: "('k, 'v) dict \<Rightarrow> 'k \<Rightarrow> bool" where
  "dict_has d k = (map_of d k \<noteq> None)"

text \<open>\<^verbatim>\<open>dict(pairs)\<close>: later pairs overwrite earlier ones.\<close>

definition dict_of :: "('k \<times> 'v) list \<Rightarrow> ('k, 'v) dict" where
  "dict_of ps = foldl (\<lambda>d (k, v). dict_set d k v) [] ps"

text \<open>Python slices \<^verbatim>\<open>xs[:n]\<close> and \<^verbatim>\<open>xs[n:]\<close>; a negative bound counts from the end.\<close>

definition slice_to :: "'a list \<Rightarrow> int \<Rightarrow> 'a list" where
  "slice_to xs n = (if 0 \<le> n then take (nat n) xs else take (length xs - nat (- n)) xs)"

definition slice_from :: "'a list \<Rightarrow> int \<Rightarrow> 'a list" where
  "slice_from xs n = (if 0 \<le> n then drop (nat n) xs else drop (length xs - nat (- n)) xs)"

section \<open>The function wrapper\<close>

text \<open>
  A declared cast is either the type \<^verbatim>\<open>bool\<close> or another callable; a callable applied
  to a token returns a value or raises an exception, of which only the message
  (\<^verbatim>\<open>str(e)\<close>) is kept.
\<close>

datatype cast = Bool_t | Callable "string \<Rightarrow> string + pyval"

text \<open>The built-in \<^verbatim>\<open>str\<close>, the default of \<^verbatim>\<open>default_cast\<close>.\<close>

definition str_t :: cast where
  "str_t = Callable (\<lambda>s. Inr (PyStr s))"

text \<open>
  What \<^verbatim>\<open>_getfunctionspec\<close> reads from a plain function, with its name and docstring:
  the argument names, the defaults (of which the wrapper uses only the number and the
  types, so that a default is given by its type) and the annotations.
\<close>

record pyfunction =
  fn_name :: string
  fn_doc :: "string option"
  fn_args :: "string list"
  fn_defaults :: "cast list"
  fn_annotations :: "(string, cast) dict"

datatype strategy = Args | Mixed | Kwargs

text \<open>
  The attributes \<^verbatim>\<open>_FunctionWrapper.__init__\<close> sets; \<open>strategy\<close> says which subclass
  the wrapper is, and \<open>py_function\<close> is the attribute \<^verbatim>\<open>function\<close>.  \<^verbatim>\<open>self.optional\<close> is a
  Python set: its field here lists the set in the order in which Python iterates over it.
\<close>

record wrapper =
  py_function :: pyfunction
  strategy :: strategy
  arg_names :: "string list"
  name :: string
  required :: "string list"
  optional :: "string list"
  booleans :: "string list"
  defaults_count :: nat
  needed_args :: int
  casts :: "(string, cast) dict"

text \<open>The loop that fills \<^verbatim>\<open>casts\<close>.\<close>

definition cast_of :: "(string, cast) dict \<Rightarrow> (string, cast) dict \<Rightarrow> cast \<Rightarrow> string \<Rightarrow> cast" where
  "cast_of annotations defaults_dict default_cast n =
     (case dict_get annotations n of
        Some c \<Rightarrow> c
      | None \<Rightarrow> (case dict_get defaults_dict n of Some t \<Rightarrow> t | None \<Rightarrow> default_cast))"

definition is_bool :: "(string, cast) dict \<Rightarrow> string \<Rightarrow> bool" where
  "is_bool cs n = (case dict_get cs n of Some Bool_t \<Rightarrow> True | _ \<Rightarrow> False)"

text \<open>
  \<^verbatim>\<open>_FunctionWrapper.__init__\<close>.  \<open>iter_set\<close> stands for Python's iteration order over
  the set \<^verbatim>\<open>set(arg_names) - set(required)\<close>, which the language leaves open.
\<close>

definition FunctionWrapper_init ::
  "(string list \<Rightarrow> string list) \<Rightarrow> strategy \<Rightarrow> pyfunction \<Rightarrow> cast \<Rightarrow> wrapper" where
  "FunctionWrapper_init iter_set k f default_cast =
     (let args = fn_args f;
          defaults = fn_defaults f;
          dcount = length defaults;
          not_default_count = int (length args) - int dcount;
          not_defaulted = slice_to args not_default_count;
          defaulted_args = slice_from args not_default_count;
          defaults_dict = dict_of (zip defaulted_args defaults);
          cs = foldl (\<lambda>d n. dict_set d n (cast_of (fn_annotations f) defaults_dict default_cast n))
                 [] args;
          bools = filter (is_bool cs) args;
          req = filter (\<lambda>a. a \<notin> set bools) not_defaulted
      in \<lparr> py_function = f, strategy = k, arg_names = args, name = fn_name f,
           required = req,
           optional = iter_set (remdups (filter (\<lambda>a. a \<notin> set req) args)),
           booleans = bools, defaults_count = dcount,
           needed_args = int (length args) - int dcount,
           casts = cs \<rparr>)"

text \<open>A name or a letter between apostrophes, as \<^verbatim>\<open>'%s'\<close> prints it.\<close>

definition quote :: "string \<Rightarrow> string" where
  "quote s = CHR 0x27 # s @ [CHR 0x27]"

text \<open>
  \<^verbatim>\<open>cast_parameter\<close>: the special cast of \<^verbatim>\<open>bool\<close> ignores the token and returns
  \<^verbatim>\<open>True\<close>; every exception raised on the way, the \<^verbatim>\<open>KeyError\<close> of a name without a
  cast included (whose message is the name between apostrophes), becomes a
  \<^verbatim>\<open>PyoptError\<close>.
\<close>

definition cast_parameter :: "wrapper \<Rightarrow> string \<Rightarrow> string \<Rightarrow> exn + pyval" where
  "cast_parameter w n v =
     (case dict_get (casts w) n of
        None \<Rightarrow> Inl (PyoptError (''Failed parsing '' @ quote n @ '', '' @ quote n @ ''.''))
      | Some Bool_t \<Rightarrow> Inr (PyBool True)
      | Some (Callable type_to_cast) \<Rightarrow>
          (case type_to_cast v of
             Inl e \<Rightarrow> Inl (PyoptError (''Failed parsing '' @ quote n @ '', '' @ e @ ''.''))
           | Inr parsed_arg \<Rightarrow> Inr parsed_arg))"

section \<open>The positional strategy\<close>

text \<open>
  The loop of \<^verbatim>\<open>_ArgsFunction.parse\<close> over \<^verbatim>\<open>zip(raw_args, self.arg_names)\<close>; the
  accumulator is \<^verbatim>\<open>args_to_call_with\<close>.
\<close>

fun args_loop :: "wrapper \<Rightarrow> (string \<times> string) list \<Rightarrow> pyval list \<Rightarrow> exn + pyval list" where
  "args_loop w [] args_to_call_with = Inr args_to_call_with"
| "args_loop w ((arg, arg_name) # ps) args_to_call_with =
     (case cast_parameter w arg_name arg of
        Inl e \<Rightarrow> Inl e
      | Inr parsed_arg \<Rightarrow> args_loop w ps (args_to_call_with @ [parsed_arg]))"

definition ArgsFunction_parse ::
  "wrapper \<Rightarrow> string list \<Rightarrow> exn + (pyval list \<times> (string, pyval) dict)" where
  "ArgsFunction_parse w raw_args =
     (if int (length raw_args) < needed_args w then
        Inl (NotEnoughArgs (str_int (needed_args w) @ '' arguments required, got only ''
               @ str_nat (length raw_args) @ ''.''))
      else if length raw_args > length (arg_names w) then
        Inl (PyoptError (''Got '' @ str_nat (length raw_args) @ '' arguments and expected at most ''
               @ str_nat (length (arg_names w)) @ ''.''))
      else (case args_loop w (zip raw_args (arg_names w)) [] of
              Inl e \<Rightarrow> Inl e
            | Inr args_to_call_with \<Rightarrow> Inr (args_to_call_with, [])))"

section \<open>The keyword strategy\<close>

text \<open>
  \<^verbatim>\<open>_shortcuts\<close>: the dictionary from a first letter to the name; \<^verbatim>\<open>name[0]\<close> of an
  empty name raises \<^verbatim>\<open>IndexError\<close>, and of two names with the same first letter the
  later one stays.
\<close>

fun shortcuts_loop :: "string list \<Rightarrow> (char, string) dict \<Rightarrow> exn + (char, string) dict" where
  "shortcuts_loop [] d = Inr d"
| "shortcuts_loop ([] # ns) d = Inl (IndexError ''string index out of range'')"
| "shortcuts_loop ((c # cs) # ns) d = shortcuts_loop ns (dict_set d c (c # cs))"

definition shortcuts :: "wrapper \<Rightarrow> exn + (char, string) dict" where
  "shortcuts w = shortcuts_loop (arg_names w) []"

text \<open>
  \<^verbatim>\<open>for name in self.booleans: args_dict[name] = False\<close>.  The loop variable is the
  variable \<^verbatim>\<open>name\<close> of the method: after the loop it is bound to the last boolean
  parameter, and it is unbound when there is none (\<open>preseed_name\<close>).
\<close>

definition preseed :: "wrapper \<Rightarrow> (string, pyval) dict" where
  "preseed w = foldl (\<lambda>args_dict n. dict_set args_dict n (PyBool False)) [] (booleans w)"

definition preseed_name :: "wrapper \<Rightarrow> string option" where
  "preseed_name w = (if booleans w = [] then None else Some (last (booleans w)))"

text \<open>
  The inner loop over the letters of a token such as \<^verbatim>\<open>-abc\<close>.  It assigns the
  variable \<^verbatim>\<open>name\<close>, whose value outlives the loop.
\<close>

fun bundle_loop ::
  "wrapper \<Rightarrow> (char, string) dict \<Rightarrow> string \<Rightarrow> string option \<Rightarrow> (string, pyval) dict
     \<Rightarrow> exn + (string option \<times> (string, pyval) dict)" where
  "bundle_loop w short_to_name [] nm args_dict = Inr (nm, args_dict)"
| "bundle_loop w short_to_name (short # cs) nm args_dict =
     (case dict_get short_to_name short of
        None \<Rightarrow> Inl (KeyError [short])
      | Some n \<Rightarrow>
          if n \<notin> set (booleans w) then
            Inl (PyoptError (''Illegal option '' @ quote [short] @ '' given as boolean.''))
          else bundle_loop w short_to_name cs (Some n) (dict_set args_dict n (PyBool True)))"

text \<open>
  The \<^verbatim>\<open>if\<close>/\<^verbatim>\<open>elif\<close>/\<^verbatim>\<open>else\<close> chain that finds the name of a switch, for the branches
  that go on to the check of the name.  A token that is \<^verbatim>\<open>-\<close> alone assigns nothing:
  the variable \<^verbatim>\<open>name\<close> keeps the value it has (\<open>nm\<close>), from an earlier round or from
  the pre-seeding loop, and reading it while it is unbound raises \<^verbatim>\<open>UnboundLocalError\<close>.
\<close>

definition kw_name :: "(char, string) dict \<Rightarrow> string \<Rightarrow> string option \<Rightarrow> exn + string" where
  "kw_name short_to_name argument nm =
     (if startswith argument ''--'' then Inr (drop 2 argument)
      else if startswith argument ''-'' then
        (if length argument = 2 then
           (case dict_get short_to_name (argument ! 1) of
              None \<Rightarrow> Inl (KeyError [argument ! 1])
            | Some n \<Rightarrow> Inr n)
         else
           (case nm of
              None \<Rightarrow> Inl (UnboundLocalError ''name'')
            | Some n \<Rightarrow> Inr n))
      else Inl (PyoptError (''Options must start with '' @ quote ''-'' @ '' or '' @ quote ''--'' @ ''.'')))"

text \<open>
  The \<^verbatim>\<open>while i < len(raw_args)\<close> loop of \<^verbatim>\<open>_KwargsFunction.parse\<close>; the state is the
  index \<open>i\<close>, the variable \<^verbatim>\<open>name\<close> (\<open>None\<close> while unbound) and \<^verbatim>\<open>args_dict\<close>.
\<close>

function kw_loop ::
  "wrapper \<Rightarrow> (char, string) dict \<Rightarrow> string list \<Rightarrow> nat \<Rightarrow> string option \<Rightarrow> (string, pyval) dict
     \<Rightarrow> exn + (string, pyval) dict" where
  "kw_loop w short_to_name raw_args i nm args_dict =
     (if i < length raw_args then
        (if \<not> startswith (raw_args ! i) ''--'' \<and> startswith (raw_args ! i) ''-''
              \<and> length (raw_args ! i) > 2 then
           (case bundle_loop w short_to_name (drop 1 (raw_args ! i)) nm args_dict of
              Inl e \<Rightarrow> Inl e
            | Inr (nm', args_dict') \<Rightarrow> kw_loop w short_to_name raw_args (i + 1) nm' args_dict')
         else
           (case kw_name short_to_name (raw_args ! i) nm of
              Inl e \<Rightarrow> Inl e
            | Inr n \<Rightarrow>
                if n \<notin> set (arg_names w) then
                  Inl (PyoptError (''Illegal option '' @ quote n @ '' given.''))
                else
                  (case dict_get (casts w) n of
                     None \<Rightarrow> Inl (KeyError n)
                   | Some Bool_t \<Rightarrow>
                       kw_loop w short_to_name raw_args (i + 1) (Some n)
                         (dict_set args_dict n (PyBool True))
                   | Some (Callable c) \<Rightarrow>
                       if i + 1 < length raw_args then
                         (case cast_parameter w n (raw_args ! (i + 1)) of
                            Inl e \<Rightarrow> Inl e
                          | Inr parsed_val \<Rightarrow>
                              kw_loop w short_to_name raw_args (i + 2) (Some n)
                                (dict_set args_dict n parsed_val))
                       else Inl (IndexError ''list index out of range''))))
      else Inr args_dict)"
  by pat_completeness auto
termination
  by (relation "measure (\<lambda>(w, s, raw_args, i, nm, d). length raw_args - i)") auto

declare kw_loop.simps [simp del]

definition KwargsFunction_parse ::
  "wrapper \<Rightarrow> string list \<Rightarrow> exn + (pyval list \<times> (string, pyval) dict)" where
  "KwargsFunction_parse w raw_args =
     (case shortcuts w of
        Inl e \<Rightarrow> Inl e
      | Inr short_to_name \<Rightarrow>
          (case kw_loop w short_to_name raw_args 0 (preseed_name w) (preseed w) of
             Inl e \<Rightarrow> Inl e
           | Inr args_dict \<Rightarrow>
               (let not_given = filter (\<lambda>arg. \<not> dict_has args_dict arg) (required w) in
                if length not_given > 0 then
                  Inl (NotEnoughArgs (''The following options are required: ''
                         @ join '', '' not_given @ ''.''))
                else Inr ([], args_dict))))"

section \<open>The option scanner of the standard library\<close>

text \<open>
  \<^verbatim>\<open>_MixedFunction.parse\<close> hands the tokens to \<^verbatim>\<open>getopt.getopt\<close> of the Python standard
  library (\<^verbatim>\<open>Lib/getopt.py\<close> of Python 3.12, the interpreter of the repository's
  environment).  The scanner is not part of the repository; the functions of this section
  follow the library's source, one for one.
\<close>

text \<open>
  \<^verbatim>\<open>short_has_arg(opt, shortopts)\<close>: the first occurrence of the letter decides, and the
  letter takes an argument when a colon follows that occurrence.
\<close>

fun short_has_arg :: "char \<Rightarrow> string \<Rightarrow> exn + bool" where
  "short_has_arg opt [] = Inl (GetoptError (''option -'' @ [opt] @ '' not recognized''))"
| "short_has_arg opt (c # shortopts) =
     (if opt = c \<and> c \<noteq> CHR '':'' then Inr (startswith shortopts '':'')
      else short_has_arg opt shortopts)"

text \<open>\<^verbatim>\<open>do_shorts(opts, optstring, shortopts, args)\<close>: the loop over the letters of a token.\<close>

fun do_shorts ::
  "(string \<times> string) list \<Rightarrow> string \<Rightarrow> string \<Rightarrow> string list
     \<Rightarrow> exn + ((string \<times> string) list \<times> string list)" where
  "do_shorts opts [] shortopts args = Inr (opts, args)"
| "do_shorts opts (opt # optstring) shortopts args =
     (case short_has_arg opt shortopts of
        Inl e \<Rightarrow> Inl e
      | Inr True \<Rightarrow>
          (if optstring = [] then
             (case args of
                [] \<Rightarrow> Inl (GetoptError (''option -'' @ [opt] @ '' requires argument''))
              | optarg # args' \<Rightarrow> Inr (opts @ [([CHR ''-'', opt], optarg)], args'))
           else Inr (opts @ [([CHR ''-'', opt], optstring)], args))
      | Inr False \<Rightarrow> do_shorts (opts @ [([CHR ''-'', opt], [])]) optstring shortopts args)"

definition endswith :: "string \<Rightarrow> string \<Rightarrow> bool" where
  "endswith s p = (length p \<le> length s \<and> drop (length s - length p) s = p)"

text \<open>\<^verbatim>\<open>long_has_args(opt, longopts)\<close>: an exact match, or else a unique prefix.\<close>

definition long_has_args :: "string \<Rightarrow> string list \<Rightarrow> exn + (bool \<times> string)" where
  "long_has_args opt longopts =
     (let possibilities = filter (\<lambda>o'. startswith o' opt) longopts in
      if possibilities = [] then Inl (GetoptError (''option --'' @ opt @ '' not recognized''))
      else if opt \<in> set possibilities then Inr (False, opt)
      else if opt @ ''='' \<in> set possibilities then Inr (True, opt)
      else if length possibilities > 1 then
        Inl (GetoptError (''option --'' @ opt @ '' not a unique prefix''))
      else
        (let unique_match = hd possibilities;
             has_arg = endswith unique_match ''=''
         in Inr (has_arg, if has_arg then butlast unique_match else unique_match)))"

text \<open>
  \<^verbatim>\<open>do_longs(opts, opt, longopts, args)\<close>; \<open>opt\<close> is the token without its two hyphens,
  split at its first \<^verbatim>\<open>=\<close> when it has one.
\<close>

definition do_longs ::
  "(string \<times> string) list \<Rightarrow> string \<Rightarrow> string list \<Rightarrow> string list
     \<Rightarrow> exn + ((string \<times> string) list \<times> string list)" where
  "do_longs opts opt longopts args =
     (let optarg = (if CHR ''='' \<in> set opt
                    then Some (drop 1 (dropWhile (\<lambda>c. c \<noteq> CHR ''='') opt)) else None);
          opt1 = takeWhile (\<lambda>c. c \<noteq> CHR ''='') opt
      in case long_has_args opt1 longopts of
           Inl e \<Rightarrow> Inl e
         | Inr (has_arg, opt2) \<Rightarrow>
             if has_arg then
               (case optarg of
                  None \<Rightarrow>
                    (case args of
                       [] \<Rightarrow> Inl (GetoptError (''option --'' @ opt2 @ '' requires argument''))
                     | a # args' \<Rightarrow> Inr (opts @ [(''--'' @ opt2, a)], args'))
                | Some v \<Rightarrow> Inr (opts @ [(''--'' @ opt2, v)], args))
             else
               (case optarg of
                  Some v \<Rightarrow>
                    Inl (GetoptError (''option --'' @ opt2 @ '' must not have an argument''))
                | None \<Rightarrow> Inr (opts @ [(''--'' @ opt2, [])], args)))"

lemma do_shorts_length:
  "do_shorts opts optstring shortopts args = Inr (opts', args') \<Longrightarrow> length args' \<le> length args"
  by (induction optstring arbitrary: opts)
     (auto split: sum.splits bool.splits if_splits list.splits)

lemma do_longs_length:
  "do_longs opts opt longopts args = Inr (opts', args') \<Longrightarrow> length args' \<le> length args"
  by (auto simp: do_longs_def Let_def split: sum.splits if_splits option.splits list.splits)

text \<open>
  The loop of \<^verbatim>\<open>getopt\<close>: it runs while the first token starts with a hyphen and is not
  the single hyphen, and the token \<^verbatim>\<open>--\<close> ends it.
\<close>

function getopt_loop ::
  "(string \<times> string) list \<Rightarrow> string list \<Rightarrow> string \<Rightarrow> string list
     \<Rightarrow> exn + ((string \<times> string) list \<times> string list)" where
  "getopt_loop opts [] shortopts longopts = Inr (opts, [])"
| "getopt_loop opts (a # args) shortopts longopts =
     (if startswith a ''-'' \<and> a \<noteq> ''-'' then
        (if a = ''--'' then Inr (opts, args)
         else if startswith a ''--'' then
           (case do_longs opts (drop 2 a) longopts args of
              Inl e \<Rightarrow> Inl e
            | Inr (opts', args') \<Rightarrow> getopt_loop opts' args' shortopts longopts)
         else
           (case do_shorts opts (drop 1 a) shortopts args of
              Inl e \<Rightarrow> Inl e
            | Inr (opts', args') \<Rightarrow> getopt_loop opts' args' shortopts longopts))
      else Inr (opts, a # args))"
  by pat_completeness auto
termination
  by (relation "measure (\<lambda>(opts, args, shortopts, longopts). length args)")
     (auto dest: do_shorts_length do_longs_length)

definition getopt ::
  "string list \<Rightarrow> string \<Rightarrow> string list \<Rightarrow> exn + ((string \<times> string) list \<times> string list)" where
  "getopt args shortopts longopts = getopt_loop [] args shortopts longopts"

text \<open>
  The condition of the scanner's loop: a token is scanned as an option when it starts with
  a hyphen and is not the single hyphen.
\<close>

definition looks_like_option :: "string \<Rightarrow> bool" where
  "looks_like_option a = (startswith a ''-'' \<and> a \<noteq> ''-'')"

section \<open>The mixed strategy\<close>

text \<open>
  The option specifications of \<^verbatim>\<open>_MixedFunction.parse\<close>.  The first comprehension is
  \<^verbatim>\<open>[[name][0] for name in self.booleans]\<close>: the element at index 0 of the one-element
  list \<^verbatim>\<open>[name]\<close>, which is the whole name.  The second one takes \<^verbatim>\<open>name[0]\<close>, the first
  letter, and raises \<^verbatim>\<open>IndexError\<close> on an empty name.
\<close>

fun required_shorts :: "string list \<Rightarrow> exn + string" where
  "required_shorts [] = Inr []"
| "required_shorts ([] # ns) = Inl (IndexError ''string index out of range'')"
| "required_shorts ((c # cs) # ns) =
     (case required_shorts ns of Inl e \<Rightarrow> Inl e | Inr s \<Rightarrow> Inr (c # CHR '':'' # s))"

definition shorts_str :: "wrapper \<Rightarrow> exn + string" where
  "shorts_str w =
     (case required_shorts (required w) of
        Inl e \<Rightarrow> Inl e
      | Inr s \<Rightarrow> Inr (concat (booleans w) @ s))"

definition long_opts :: "wrapper \<Rightarrow> string list" where
  "long_opts w = booleans w @ map (\<lambda>n. n @ ''='') (required w)"

text \<open>
  The loop over \<^verbatim>\<open>optlist\<close>.  \<open>nm\<close> is the variable \<^verbatim>\<open>name\<close>, which an option that
  starts with no hyphen would leave as it was; \<^verbatim>\<open>pos_args.remove(name)\<close> raises
  \<^verbatim>\<open>ValueError\<close> when the name is not (or no longer) in the list.
\<close>

definition switch_name :: "(char, string) dict \<Rightarrow> string \<Rightarrow> string option \<Rightarrow> exn + string" where
  "switch_name short_to_name opt nm =
     (if startswith opt ''--'' then Inr (drop 2 opt)
      else if startswith opt ''-'' then
        (if length opt < 2 then Inl (IndexError ''string index out of range'')
         else (case dict_get short_to_name (opt ! 1) of
                 None \<Rightarrow> Inl (KeyError [opt ! 1])
               | Some n \<Rightarrow> Inr n))
      else (case nm of None \<Rightarrow> Inl (UnboundLocalError ''name'') | Some n \<Rightarrow> Inr n))"

fun switch_loop ::
  "wrapper \<Rightarrow> (char, string) dict \<Rightarrow> (string \<times> string) list \<Rightarrow> string option
     \<Rightarrow> (string, pyval) dict \<Rightarrow> string list \<Rightarrow> exn + ((string, pyval) dict \<times> string list)" where
  "switch_loop w short_to_name [] nm kwargs_dict pos_args = Inr (kwargs_dict, pos_args)"
| "switch_loop w short_to_name ((opt, val) # optlist) nm kwargs_dict pos_args =
     (case switch_name short_to_name opt nm of
        Inl e \<Rightarrow> Inl e
      | Inr n \<Rightarrow>
          (case cast_parameter w n val of
             Inl e \<Rightarrow> Inl e
           | Inr v \<Rightarrow>
               if n \<in> set pos_args then
                 switch_loop w short_to_name optlist (Some n) (dict_set kwargs_dict n v)
                   (remove1 n pos_args)
               else Inl (ValueError ''list.remove(x): x not in list'')))"

text \<open>The loop over \<^verbatim>\<open>zip(pos_args, uncasted_args_list)\<close>.\<close>

fun fill_loop ::
  "wrapper \<Rightarrow> (string \<times> string) list \<Rightarrow> pyval list \<Rightarrow> string list
     \<Rightarrow> exn + (pyval list \<times> string list)" where
  "fill_loop w [] args_list args_given = Inr (args_list, args_given)"
| "fill_loop w ((n, val) # ps) args_list args_given =
     (case cast_parameter w n val of
        Inl e \<Rightarrow> Inl e
      | Inr v \<Rightarrow> fill_loop w ps (args_list @ [v]) (args_given @ [n]))"

text \<open>What \<^verbatim>\<open>_MixedFunction.parse\<close> does with the two lists the scanner returns.\<close>

definition mixed_assign ::
  "wrapper \<Rightarrow> (char, string) dict \<Rightarrow> (string \<times> string) list \<Rightarrow> string list
     \<Rightarrow> exn + (pyval list \<times> (string, pyval) dict)" where
  "mixed_assign w short_to_name optlist uncasted_args_list =
     (case switch_loop w short_to_name optlist None [] (arg_names w) of
        Inl e \<Rightarrow> Inl e
      | Inr (kwargs_dict, pos_args) \<Rightarrow>
          (case fill_loop w (zip pos_args uncasted_args_list) [] [] of
             Inl e \<Rightarrow> Inl e
           | Inr (args_list, args_given) \<Rightarrow>
               (let not_key_given = filter (\<lambda>arg. \<not> dict_has kwargs_dict arg) (required w);
                    not_given = filter (\<lambda>arg. arg \<notin> set args_given) not_key_given
                in if length not_given > 0 then
                     Inl (NotEnoughArgs (''The following options are required: ''
                            @ join '', '' not_given @ ''.''))
                   else Inr (args_list, kwargs_dict))))"

definition MixedFunction_parse ::
  "wrapper \<Rightarrow> string list \<Rightarrow> exn + (pyval list \<times> (string, pyval) dict)" where
  "MixedFunction_parse w raw_args =
     (case shortcuts w of
        Inl e \<Rightarrow> Inl e
      | Inr short_to_name \<Rightarrow>
          (case shorts_str w of
             Inl e \<Rightarrow> Inl e
           | Inr shorts \<Rightarrow>
               (case getopt raw_args shorts (long_opts w) of
                  Inl e \<Rightarrow> Inl e
                | Inr (optlist, uncasted_args_list) \<Rightarrow>
                    mixed_assign w short_to_name optlist uncasted_args_list)))"

section \<open>Strings of the docstring\<close>

text \<open>
  The characters that \<^verbatim>\<open>str.strip()\<close> and \<^verbatim>\<open>str.split()\<close> treat as whitespace, and those
  at which \<^verbatim>\<open>str.splitlines()\<close> breaks a line, among the code points below 256.
\<close>

definition isspace :: "char \<Rightarrow> bool" where
  "isspace c =
     (let n = (of_char c :: nat)
      in (9 \<le> n \<and> n \<le> 13) \<or> (28 \<le> n \<and> n \<le> 32) \<or> n = 133 \<or> n = 160)"

definition is_linebreak :: "char \<Rightarrow> bool" where
  "is_linebreak c =
     (let n = (of_char c :: nat)
      in (10 \<le> n \<and> n \<le> 13) \<or> (28 \<le> n \<and> n \<le> 30) \<or> n = 133)"

definition strip :: "string \<Rightarrow> string" where
  "strip s = rev (dropWhile isspace (rev (dropWhile isspace s)))"

text \<open>
  \<^verbatim>\<open>s.splitlines()\<close>: \<open>cur\<close> is the line read so far; a carriage return followed by a
  line feed is one break, and a last line without a break counts when it is not empty.
\<close>

fun splitlines_from :: "string \<Rightarrow> string \<Rightarrow> string list" where
  "splitlines_from cur [] = (if cur = [] then [] else [cur])"
| "splitlines_from cur [c] = (if is_linebreak c then [cur] else [cur @ [c]])"
| "splitlines_from cur (c # d # cs) =
     (if c = CHR 0x0D \<and> d = CHR 0x0A then cur # splitlines_from [] cs
      else if is_linebreak c then cur # splitlines_from [] (d # cs)
      else splitlines_from (cur @ [c]) (d # cs))"

definition splitlines :: "string \<Rightarrow> string list" where
  "splitlines s = splitlines_from [] s"

text \<open>
  \<^verbatim>\<open>s.split()\<close>: the words between runs of whitespace; \<open>cur\<close> is the word read so far.
\<close>

fun split_from :: "string \<Rightarrow> string \<Rightarrow> string list" where
  "split_from cur [] = (if cur = [] then [] else [cur])"
| "split_from cur (c # cs) =
     (if isspace c then (if cur = [] then split_from [] cs else cur # split_from [] cs)
      else split_from (cur @ [c]) cs)"

definition split :: "string \<Rightarrow> string list" where
  "split s = split_from [] s"

section \<open>The docstring annotator\<close>

text \<open>
  The pattern of \<^verbatim>\<open>_parse_docstring\<close> is \<^verbatim>\<open>(n1|n2|...)[ \t-:]*(.*)\<close>, matched at the start of
  a stripped line.  The parameter names are Python identifiers, so that they stand for
  themselves in the pattern.  The alternatives are tried from left to right, and what
  follows the name always matches: the first group is the first name, in declared order,
  that the line starts with; a function without parameters gives the pattern one empty
  alternative.  The character class holds the space and the range from the tab to the
  colon, that is the code points 9 to 58.  The second group is what is left of the line
  after the longest run of such characters, up to a line feed.
\<close>

definition doc_class :: "char \<Rightarrow> bool" where
  "doc_class c = (9 \<le> (of_char c :: nat) \<and> (of_char c :: nat) \<le> 58)"

definition var_doc_match :: "string list \<Rightarrow> string \<Rightarrow> (string \<times> string) option" where
  "var_doc_match arg_names_list stripped =
     (case find (\<lambda>n. startswith stripped n)
             (if arg_names_list = [] then [[]] else arg_names_list) of
        None \<Rightarrow> None
      | Some n \<Rightarrow>
          Some (n, takeWhile (\<lambda>c. c \<noteq> CHR 0x0A)
                     (dropWhile doc_class (drop (length n) stripped))))"

text \<open>
  The loop over \<^verbatim>\<open>enumerate(lines)\<close>; the state is \<^verbatim>\<open>first_line\<close> and \<^verbatim>\<open>docs_dict\<close>.
\<close>

fun doc_loop ::
  "string list \<Rightarrow> (nat \<times> string) list \<Rightarrow> nat \<Rightarrow> (string, string) dict
     \<Rightarrow> nat \<times> (string, string) dict" where
  "doc_loop arg_names_list [] first_line docs_dict = (first_line, docs_dict)"
| "doc_loop arg_names_list ((i, ln) # rest) first_line docs_dict =
     (case var_doc_match arg_names_list (strip ln) of
        None \<Rightarrow> doc_loop arg_names_list rest first_line docs_dict
      | Some (n, doc) \<Rightarrow>
          doc_loop arg_names_list rest (if i < first_line then i else first_line)
            (dict_set docs_dict n (strip doc)))"

definition parse_docstring :: "pyfunction \<Rightarrow> string \<times> (string, string) dict" where
  "parse_docstring f =
     (let docs = (case fn_doc f of None \<Rightarrow> [] | Some d \<Rightarrow> d);
          lines = splitlines docs;
          (first_line, docs_dict) = doc_loop (fn_args f) (enumerate 0 lines) (length docs) [];
          summary = (if first_line < length docs
                     then strip (join [CHR 0x0A] (take first_line lines)) else [])
      in (summary, docs_dict))"



section \<open>Usage texts\<close>

text \<open>\<^verbatim>\<open>_indent(string, tab_count)\<close>.\<close>

definition indent :: "string \<Rightarrow> nat \<Rightarrow> string" where
  "indent string tab_count =
     join [CHR 0x0A] (map (\<lambda>ln. replicate tab_count (CHR 0x09) @ strip ln) (splitlines string))"

definition get_doc :: "wrapper \<Rightarrow> string" where
  "get_doc w = (case fn_doc (py_function w) of None \<Rightarrow> [] | Some d \<Rightarrow> indent (strip d) 2)"

text \<open>\<^verbatim>\<open>arg[0]\<close>, which raises \<^verbatim>\<open>IndexError\<close> on the empty string.\<close>

fun first_letter :: "string \<Rightarrow> exn + char" where
  "first_letter [] = Inl (IndexError ''string index out of range'')"
| "first_letter (c # cs) = Inr c"

text \<open>A list comprehension \<^verbatim>\<open>[g(x) for x in xs]\<close> whose element may raise.\<close>

fun collect :: "('a \<Rightarrow> exn + 'b) \<Rightarrow> 'a list \<Rightarrow> exn + 'b list" where
  "collect g [] = Inr []"
| "collect g (x # xs) =
     (case g x of
        Inl e \<Rightarrow> Inl e
      | Inr y \<Rightarrow> (case collect g xs of Inl e \<Rightarrow> Inl e | Inr ys \<Rightarrow> Inr (y # ys)))"

text \<open>
  \<^verbatim>\<open>parameters_repr\<close>: the method of \<^verbatim>\<open>_ArgsFunction\<close>, and the one that \<^verbatim>\<open>_MixedFunction\<close>
  and \<^verbatim>\<open>_KwargsFunction\<close> both define.
\<close>

definition switch_repr :: "string \<Rightarrow> string \<Rightarrow> string \<Rightarrow> exn + string" where
  "switch_repr lead trail arg =
     (case first_letter arg of
        Inl e \<Rightarrow> Inl e
      | Inr c \<Rightarrow> Inr (lead @ [c] @ trail))"

definition parameters_repr :: "wrapper \<Rightarrow> exn + string" where
  "parameters_repr w =
     (case strategy w of
        Args \<Rightarrow> Inr (join '' '' (required w @ map (\<lambda>arg. ''['' @ arg @ '']'') (optional w)))
      | _ \<Rightarrow>
          (case collect (\<lambda>arg. switch_repr ''-'' ('' '' @ arg) arg) (required w) of
             Inl e \<Rightarrow> Inl e
           | Inr req_str \<Rightarrow>
               (case collect (\<lambda>arg. switch_repr ''[-'' ('' '' @ arg @ '']'') arg)
                       (filter (\<lambda>arg. arg \<notin> set (booleans w)) (optional w)) of
                  Inl e \<Rightarrow> Inl e
                | Inr opt_str \<Rightarrow>
                    (case collect (\<lambda>arg. switch_repr ''[-'' '']'' arg) (booleans w) of
                       Inl e \<Rightarrow> Inl e
                     | Inr bools_str \<Rightarrow> Inr (join '' '' (req_str @ opt_str @ bools_str))))))"

definition get_usage :: "wrapper \<Rightarrow> exn + string" where
  "get_usage w =
     (case parameters_repr w of
        Inl e \<Rightarrow> Inl e
      | Inr r \<Rightarrow> Inr ([CHR 0x09] @ name w @ '' '' @ r @ [CHR 0x0A] @ get_doc w))"

text \<open>
  \<^verbatim>\<open>docstring_usage\<close>: the loop of \<^verbatim>\<open>_FunctionWrapper.docstring_usage\<close> over
  \<^verbatim>\<open>docs_dict.items()\<close>, and the two methods.
\<close>

fun usage_lines_loop ::
  "(char, string) dict \<Rightarrow> (string \<times> string) list \<Rightarrow> string list \<Rightarrow> exn + string list" where
  "usage_lines_loop short_to_name [] usage_lines = Inr usage_lines"
| "usage_lines_loop short_to_name ((n, explanation) # rest) usage_lines =
     (case first_letter n of
        Inl e \<Rightarrow> Inl e
      | Inr short \<Rightarrow>
          (case dict_get short_to_name short of
             None \<Rightarrow> Inl (KeyError [short])
           | Some m \<Rightarrow>
               if m = n then
                 usage_lines_loop short_to_name rest
                   (usage_lines @ [[CHR 0x09] @ ''-'' @ [short] @ '' --'' @ n @ '' - '' @ explanation])
               else
                 usage_lines_loop short_to_name rest
                   (usage_lines @ [[CHR 0x09] @ ''--'' @ n @ '' - '' @ explanation])))"

definition docstring_usage :: "wrapper \<Rightarrow> exn + string" where
  "docstring_usage w =
     (let (summary, docs_dict) = parse_docstring (py_function w) in
      case strategy w of
        Args \<Rightarrow>
          Inr (join [CHR 0x0A]
                 (summary # map (\<lambda>(n, explanation). [CHR 0x09] @ n @ '' - '' @ explanation) docs_dict))
      | _ \<Rightarrow>
          (case shortcuts w of
             Inl e \<Rightarrow> Inl e
           | Inr short_to_name \<Rightarrow>
               (case usage_lines_loop short_to_name docs_dict [summary] of
                  Inl e \<Rightarrow> Inl e
                | Inr usage_lines \<Rightarrow> Inr (join [CHR 0x0A] usage_lines))))"

section \<open>The coordinator\<close>

text \<open>
  The attributes of an \<^verbatim>\<open>Exposer\<close>.  \<^verbatim>\<open>__init__\<close> sets \<^verbatim>\<open>functions_dict\<close> and
  \<^verbatim>\<open>default_cast\<close>, and \<^verbatim>\<open>_setup\<close> sets the others; \<open>func = None\<close> is the attribute not
  set yet.
\<close>

record exposer =
  functions_dict :: "(string, wrapper) dict"
  default_cast :: cast
  cmd_args :: "string list"
  script_name :: string
  is_single :: bool
  raw_args :: "string list"
  func :: "wrapper option"

text \<open>
  The decorators \<^verbatim>\<open>args\<close>, \<^verbatim>\<open>kwargs\<close> and \<^verbatim>\<open>mixed\<close>: a function registered under a name
  that is in use replaces the earlier one.  \<open>it\<close> is the iteration order of
  \<open>FunctionWrapper_init\<close>.
\<close>

definition Exposer_args :: "(string list \<Rightarrow> string list) \<Rightarrow> exposer \<Rightarrow> pyfunction \<Rightarrow> exposer" where
  "Exposer_args it e f =
     e\<lparr>functions_dict :=
         dict_set (functions_dict e) (fn_name f) (FunctionWrapper_init it Args f (default_cast e))\<rparr>"

definition Exposer_kwargs :: "(string list \<Rightarrow> string list) \<Rightarrow> exposer \<Rightarrow> pyfunction \<Rightarrow> exposer" where
  "Exposer_kwargs it e f =
     e\<lparr>functions_dict :=
         dict_set (functions_dict e) (fn_name f) (FunctionWrapper_init it Kwargs f (default_cast e))\<rparr>"

definition Exposer_mixed :: "(string list \<Rightarrow> string list) \<Rightarrow> exposer \<Rightarrow> pyfunction \<Rightarrow> exposer" where
  "Exposer_mixed it e f =
     e\<lparr>functions_dict :=
         dict_set (functions_dict e) (fn_name f) (FunctionWrapper_init it Mixed f (default_cast e))\<rparr>"

text \<open>\<^verbatim>\<open>Exposer.__init__(kw_funcs_list, pos_funcs_list, mixed_funcs_list, default_cast)\<close>.\<close>

definition Exposer_init ::
  "(string list \<Rightarrow> string list) \<Rightarrow> pyfunction list \<Rightarrow> pyfunction list \<Rightarrow> pyfunction list \<Rightarrow> cast
     \<Rightarrow> exposer" where
  "Exposer_init it kw_funcs_list pos_funcs_list mixed_funcs_list dc =
     foldl (Exposer_mixed it)
       (foldl (Exposer_args it)
          (foldl (Exposer_kwargs it)
             \<lparr>functions_dict = [], default_cast = dc, cmd_args = [], script_name = [],
               is_single = False, raw_args = [], func = None\<rparr>
             kw_funcs_list)
          pos_funcs_list)
       mixed_funcs_list"

definition HELP_SET :: "string list" where
  "HELP_SET = [''-h'', ''--help'', ''/?'', ''?'', ''-?'']"

text \<open>\<^verbatim>\<open>os.path.basename\<close> of a POSIX system: what follows the last slash.\<close>

definition basename :: "string \<Rightarrow> string" where
  "basename p = rev (takeWhile (\<lambda>c. c \<noteq> CHR ''/'') (rev p))"

definition single_usage :: "exposer \<Rightarrow> exn + string" where
  "single_usage e =
     (case func e of
        None \<Rightarrow> Inl (AttributeError ''func'')
      | Some w \<Rightarrow>
          (case parameters_repr w of
             Inl x \<Rightarrow> Inl x
           | Inr args_repr \<Rightarrow>
               (case docstring_usage w of
                  Inl x \<Rightarrow> Inl x
                | Inr d \<Rightarrow> Inr (''Usage: '' @ script_name e @ '' '' @ args_repr @ [CHR 0x0A] @ d))))"

definition func_usage :: "exposer \<Rightarrow> exn + string" where
  "func_usage e =
     (if is_single e then single_usage e
      else (case func e of None \<Rightarrow> Inl (AttributeError ''func'') | Some w \<Rightarrow> get_usage w))"

definition complete_usage :: "exposer \<Rightarrow> exn + string" where
  "complete_usage e =
     (if is_single e then single_usage e
      else
        (case collect get_usage (map snd (functions_dict e)) of
           Inl x \<Rightarrow> Inl x
         | Inr usages \<Rightarrow>
             Inr (join [CHR 0x0A]
                    ([''Usage: '' @ script_name e @ '' [function_name] [args]'',
                      ''Available functions are:''] @ usages))))"

text \<open>
  \<^verbatim>\<open>_give_help\<close>: an \<^verbatim>\<open>IndexError\<close> or \<^verbatim>\<open>KeyError\<close> raised on the way to the usage of the
  named function gives the complete usage.
\<close>

definition give_help :: "exposer \<Rightarrow> exn + string" where
  "give_help e =
     (case (if length (cmd_args e) \<le> 2 then Inl (IndexError ''list index out of range'')
            else (case dict_get (functions_dict e) (cmd_args e ! 2) of
                    None \<Rightarrow> Inl (KeyError (cmd_args e ! 2))
                  | Some w \<Rightarrow> get_usage w)) of
        Inl (IndexError m) \<Rightarrow> complete_usage e
      | Inl (KeyError m) \<Rightarrow> complete_usage e
      | r \<Rightarrow> r)"

text \<open>The argument of \<^verbatim>\<open>_setup\<close> and \<^verbatim>\<open>parse_args\<close>: a string, which is split, or a list.\<close>

datatype cmd_line = Str string | Tokens "string list"

definition tokens_of :: "cmd_line \<Rightarrow> string list" where
  "tokens_of c = (case c of Str s \<Rightarrow> split s | Tokens l \<Rightarrow> l)"

text \<open>
  \<^verbatim>\<open>raise PrintHelp(usage)\<close>: the usage text is built first, and an exception raised on
  the way is the one that leaves.
\<close>

definition raise_help :: "exn + string \<Rightarrow> exn + 'a" where
  "raise_help usage = (case usage of Inl x \<Rightarrow> Inl x | Inr u \<Rightarrow> Inl (PrintHelp u))"

text \<open>\<^verbatim>\<open>_setup\<close>.  It reads \<^verbatim>\<open>cmd_args[0]\<close> before it counts the functions.\<close>

definition Exposer_setup :: "exposer \<Rightarrow> cmd_line \<Rightarrow> exn + exposer" where
  "Exposer_setup e0 c =
     (let toks = tokens_of c in
      case toks of
        [] \<Rightarrow> Inl (IndexError ''list index out of range'')
      | prog # rest \<Rightarrow>
          (let e = e0\<lparr>cmd_args := toks, script_name := basename prog\<rparr>;
               total_funcs = length (functions_dict e)
           in if total_funcs = 0 then
                Inl (NotImplementedError ''No functions were decorated for command-line usage.'')
              else if total_funcs = 1 then
                (let e1 = e\<lparr>is_single := True, raw_args := drop 1 toks,
                            func := Some (snd (hd (functions_dict e)))\<rparr>
                 in if length toks > 1 \<and> toks ! 1 \<in> set HELP_SET
                    then raise_help (complete_usage e1) else Inr e1)
              else
                (let e2 = e\<lparr>is_single := False, raw_args := drop 2 toks\<rparr>
                 in if length toks < 2 then raise_help (complete_usage e2)
                    else if toks ! 1 \<in> set HELP_SET then raise_help (give_help e2)
                    else (case dict_get (functions_dict e2) (toks ! 1) of
                            Some w \<Rightarrow> Inr (e2\<lparr>func := Some w\<rparr>)
                          | None \<Rightarrow>
                              Inl (PyoptError (''Unkown function '' @ quote (toks ! 1) @ ''.''))))))"

text \<open>\<^verbatim>\<open>self.func.parse\<close>: the method of the wrapper's class.\<close>

definition parse ::
  "wrapper \<Rightarrow> string list \<Rightarrow> exn + (pyval list \<times> (string, pyval) dict)" where
  "parse w toks =
     (case strategy w of
        Args \<Rightarrow> ArgsFunction_parse w toks
      | Mixed \<Rightarrow> MixedFunction_parse w toks
      | Kwargs \<Rightarrow> KwargsFunction_parse w toks)"

text \<open>
  \<^verbatim>\<open>parse_args\<close>: the result is the function with its positional and keyword values;
  the only exception handled is \<^verbatim>\<open>NotEnoughArgs\<close>.
\<close>

definition parse_args ::
  "exposer \<Rightarrow> cmd_line \<Rightarrow> exn + (pyfunction \<times> pyval list \<times> (string, pyval) dict)" where
  "parse_args e0 c =
     (case Exposer_setup e0 c of
        Inl x \<Rightarrow> Inl x
      | Inr e \<Rightarrow>
          (case func e of
             None \<Rightarrow> Inl (AttributeError ''func'')
           | Some w \<Rightarrow>
               (case parse w (raw_args e) of
                  Inl (NotEnoughArgs m) \<Rightarrow>
                    if length (raw_args e) = 0 then raise_help (func_usage e)
                    else Inl (NotEnoughArgs m)
                | Inl x \<Rightarrow> Inl x
                | Inr (args, kwargs) \<Rightarrow> Inr (py_function w, args, kwargs))))"

section \<open>Sample functions\<close>

text \<open>
  A converter that a parameter may be annotated with: it reads an unsigned decimal
  numeral and raises \<^verbatim>\<open>ValueError("not a decimal numeral")\<close> on any other token (as
  the built-in \<^verbatim>\<open>int\<close> raises on \<^verbatim>\<open>"abc"\<close>).
\<close>

definition decimal :: "string \<Rightarrow> string + pyval" where
  "decimal s =
     (if s \<noteq> [] \<and> list_all (\<lambda>c. 48 \<le> (of_char c :: nat) \<and> (of_char c :: nat) \<le> 57) s
      then Inr (PyInt (foldl (\<lambda>a c. 10 * a + (of_char c - 48)) 0 s))
      else Inl ''not a decimal numeral'')"

text \<open>\<^verbatim>\<open>def square(x: decimal): ...\<close>\<close>

definition square :: pyfunction where
  "square = \<lparr> fn_name = ''square'', fn_doc = None, fn_args = [''x''], fn_defaults = [],
     fn_annotations = [(''x'', Callable decimal)] \<rparr>"

text \<open>\<^verbatim>\<open>def greet(name: str, debug: bool = False): ...\<close>\<close>

definition greet :: pyfunction where
  "greet = \<lparr> fn_name = ''greet'', fn_doc = None, fn_args = [''name'', ''debug''],
     fn_defaults = [Bool_t], fn_annotations = [(''name'', str_t), (''debug'', Bool_t)] \<rparr>"

text \<open>\<^verbatim>\<open>def copy(source: str, target: str, debug: bool = False): ...\<close>\<close>

definition copy :: pyfunction where
  "copy = \<lparr> fn_name = ''copy'', fn_doc = None, fn_args = [''source'', ''target'', ''debug''],
     fn_defaults = [Bool_t],
     fn_annotations = [(''source'', str_t), (''target'', str_t), (''debug'', Bool_t)] \<rparr>"

text \<open>\<^verbatim>\<open>def login(user: str, debug: bool = False): ...\<close>\<close>

definition login :: pyfunction where
  "login = \<lparr> fn_name = ''login'', fn_doc = None, fn_args = [''user'', ''debug''],
     fn_defaults = [Bool_t], fn_annotations = [(''user'', str_t), (''debug'', Bool_t)] \<rparr>"


section \<open>Properties\<close>

subsection \<open>The positional strategy\<close>

lemma str_nat_small:
  "str_nat 0 = ''0''" "str_nat 1 = ''1''" "str_nat 2 = ''2''" "str_nat 3 = ''3''"
  "str_nat (Suc 0) = ''1''" "str_nat (Suc (Suc 0)) = ''2''" "str_nat (Suc (Suc (Suc 0))) = ''3''"
  by code_simp+

lemma init_arg_names: "arg_names (FunctionWrapper_init it k f dc) = fn_args f"
  by (simp add: FunctionWrapper_init_def Let_def)

lemma init_needed_args:
  "needed_args (FunctionWrapper_init it k f dc) = int (length (fn_args f)) - int (length (fn_defaults f))"
  by (simp add: FunctionWrapper_init_def Let_def)

lemma cast_parameter_error: "cast_parameter w n v = Inl e \<Longrightarrow> \<exists>m. e = PyoptError m"
  by (auto simp: cast_parameter_def split: option.splits cast.splits sum.splits)

lemma args_loop_ok:
  "\<forall>i < length ps. \<exists>v. cast_parameter w (snd (ps ! i)) (fst (ps ! i)) = Inr v \<Longrightarrow>
   args_loop w ps acc = Inr (acc @ map (\<lambda>p. projr (cast_parameter w (snd p) (fst p))) ps)"
proof (induction ps arbitrary: acc)
  case Nil
  then show ?case by simp
next
  case (Cons p ps)
  obtain a n where p: "p = (a, n)" by (cases p)
  from Cons.prems have "\<exists>v. cast_parameter w (snd ((p # ps) ! 0)) (fst ((p # ps) ! 0)) = Inr v"
    by blast
  then obtain v where v: "cast_parameter w n a = Inr v" by (auto simp: p)
  have rest: "\<forall>i < length ps. \<exists>v. cast_parameter w (snd (ps ! i)) (fst (ps ! i)) = Inr v"
  proof (intro allI impI)
    fix i assume "i < length ps"
    then have "Suc i < length (p # ps)" by simp
    with Cons.prems have "\<exists>v. cast_parameter w (snd ((p # ps) ! Suc i)) (fst ((p # ps) ! Suc i)) = Inr v"
      by blast
    then show "\<exists>v. cast_parameter w (snd (ps ! i)) (fst (ps ! i)) = Inr v" by simp
  qed
  show ?case using Cons.IH [OF rest, of "acc @ [v]"] v by (simp add: p)
qed

lemma args_loop_fail:
  "i < length ps \<Longrightarrow> cast_parameter w (snd (ps ! i)) (fst (ps ! i)) = Inl e \<Longrightarrow>
   \<exists>m. args_loop w ps acc = Inl (PyoptError m)"
proof (induction ps arbitrary: acc i)
  case Nil
  then show ?case by simp
next
  case (Cons p ps)
  obtain a n where p: "p = (a, n)" by (cases p)
  show ?case
  proof (cases "cast_parameter w n a")
    case (Inl e')
    then show ?thesis using cast_parameter_error [OF Inl] by (auto simp: p)
  next
    case (Inr v)
    with Cons.prems obtain j where j: "i = Suc j" by (cases i) (auto simp: p)
    with Cons.prems have "j < length ps" "cast_parameter w (snd (ps ! j)) (fst (ps ! j)) = Inl e"
      by auto
    from Cons.IH [OF this] show ?thesis using Inr by (simp add: p)
  qed
qed

text \<open>
  Claim C2, as amended.  For every function exposed through the positional strategy and
  every token list: fewer tokens than non-defaulted parameters raise \<^verbatim>\<open>NotEnoughArgs\<close>;
  more tokens than parameters raise \<^verbatim>\<open>PyoptError\<close>; otherwise each token is cast, in
  order, by the cast of the parameter at the same position, and the parse returns the
  cast values with an empty keyword mapping when every cast succeeds, and raises
  \<^verbatim>\<open>PyoptError\<close> when one of them fails.
\<close>

theorem ArgsFunction_parse_bounds:
  fixes f :: pyfunction and tokens :: "string list" and it :: "string list \<Rightarrow> string list" and dc :: cast
  defines "w \<equiv> FunctionWrapper_init it Args f dc"
  defines "n \<equiv> length tokens"
  defines "cap \<equiv> length (fn_args f)"
  defines "needed \<equiv> int (length (fn_args f)) - int (length (fn_defaults f))"
  shows
    "(int n < needed \<longrightarrow> (\<exists>m. ArgsFunction_parse w tokens = Inl (NotEnoughArgs m))) \<and>
     (cap < n \<longrightarrow> (\<exists>m. ArgsFunction_parse w tokens = Inl (PyoptError m))) \<and>
     (needed \<le> int n \<and> n \<le> cap \<longrightarrow>
        ((\<forall>i<n. \<exists>v. cast_parameter w (fn_args f ! i) (tokens ! i) = Inr v) \<longrightarrow>
           ArgsFunction_parse w tokens =
             Inr (map (\<lambda>i. projr (cast_parameter w (fn_args f ! i) (tokens ! i))) [0..<n], [])) \<and>
        ((\<exists>i<n. \<exists>e. cast_parameter w (fn_args f ! i) (tokens ! i) = Inl e) \<longrightarrow>
           (\<exists>m. ArgsFunction_parse w tokens = Inl (PyoptError m))))"
proof -
  have names: "arg_names w = fn_args f" and need: "needed_args w = needed"
    by (simp_all add: w_def needed_def init_arg_names init_needed_args)
  have le: "needed \<le> int cap" by (simp add: needed_def cap_def)
  have c1: "int n < needed \<longrightarrow> (\<exists>m. ArgsFunction_parse w tokens = Inl (NotEnoughArgs m))"
    by (simp add: ArgsFunction_parse_def need n_def)
  have c2: "cap < n \<longrightarrow> (\<exists>m. ArgsFunction_parse w tokens = Inl (PyoptError m))"
    using le by (auto simp: ArgsFunction_parse_def need names n_def cap_def)
  have c3: "ArgsFunction_parse w tokens =
             Inr (map (\<lambda>i. projr (cast_parameter w (fn_args f ! i) (tokens ! i))) [0..<n], [])"
    if b: "needed \<le> int n" "n \<le> cap"
      and ok: "\<forall>i<n. \<exists>v. cast_parameter w (fn_args f ! i) (tokens ! i) = Inr v"
  proof -
    let ?ps = "zip tokens (fn_args f)"
    have len: "length ?ps = n" using b by (simp add: n_def cap_def)
    have "\<forall>i < length ?ps. \<exists>v. cast_parameter w (snd (?ps ! i)) (fst (?ps ! i)) = Inr v"
      using ok len by simp
    from args_loop_ok [OF this, of "[]"]
    have "args_loop w ?ps [] = Inr (map (\<lambda>p. projr (cast_parameter w (snd p) (fst p))) ?ps)"
      by simp
    moreover have "map (\<lambda>p. projr (cast_parameter w (snd p) (fst p))) ?ps
        = map (\<lambda>i. projr (cast_parameter w (fn_args f ! i) (tokens ! i))) [0..<n]"
      using len by (intro nth_equalityI) simp_all
    ultimately show ?thesis using b
      by (simp add: ArgsFunction_parse_def need names n_def cap_def)
  qed
  have c4: "\<exists>m. ArgsFunction_parse w tokens = Inl (PyoptError m)"
    if b: "needed \<le> int n" "n \<le> cap"
      and bad: "\<exists>i<n. \<exists>e. cast_parameter w (fn_args f ! i) (tokens ! i) = Inl e"
  proof -
    let ?ps = "zip tokens (fn_args f)"
    have len: "length ?ps = n" using b by (simp add: n_def cap_def)
    from bad obtain i e where i: "i < n" "cast_parameter w (fn_args f ! i) (tokens ! i) = Inl e"
      by blast
    then have "i < length ?ps" "cast_parameter w (snd (?ps ! i)) (fst (?ps ! i)) = Inl e"
      using len by simp_all
    from args_loop_fail [OF this, of "[]"] obtain m where "args_loop w ?ps [] = Inl (PyoptError m)"
      by blast
    then show ?thesis using b
      by (simp add: ArgsFunction_parse_def need names n_def cap_def)
  qed
  show ?thesis using c1 c2 c3 c4 by blast
qed

text \<open>
  The claim as first stated lets every token list within the bounds succeed.  One token
  for the one parameter of \<open>square\<close> is within the bounds, and the parse fails on it.
\<close>

theorem ArgsFunction_parse_bounds_counterexample:
  "needed_args (FunctionWrapper_init id Args square str_t) = 1 \<and>
   length (arg_names (FunctionWrapper_init id Args square str_t)) = 1 \<and>
   ArgsFunction_parse (FunctionWrapper_init id Args square str_t) [''abc'']
     = Inl (PyoptError (''Failed parsing '' @ quote ''x'' @ '', not a decimal numeral.''))"
  by (simp add: ArgsFunction_parse_def FunctionWrapper_init_def square_def Let_def slice_to_def
      slice_from_def dict_of_def cast_of_def dict_get_def is_bool_def cast_parameter_def
      decimal_def quote_def)

theorem ArgsFunction_parse_bounds_witness:
  "ArgsFunction_parse (FunctionWrapper_init id Args square str_t) []
     = Inl (NotEnoughArgs ''1 arguments required, got only 0.'') \<and>
   ArgsFunction_parse (FunctionWrapper_init id Args square str_t) [''12'', ''7'']
     = Inl (PyoptError ''Got 2 arguments and expected at most 1.'') \<and>
   ArgsFunction_parse (FunctionWrapper_init id Args square str_t) [''12'']
     = Inr ([PyInt 12], []) \<and>
   ArgsFunction_parse (FunctionWrapper_init id Args square str_t) [''1x'']
     = Inl (PyoptError (''Failed parsing '' @ quote ''x'' @ '', not a decimal numeral.''))"
  using ArgsFunction_parse_bounds [where tokens = "[]" and f = square and it = id and dc = str_t]
    ArgsFunction_parse_bounds [where tokens = "[''1x'']" and f = square and it = id and dc = str_t]
    ArgsFunction_parse_bounds [where tokens = "[''12'', ''7'']" and f = square and it = id and dc = str_t]
    ArgsFunction_parse_bounds [where tokens = "[''12'']" and f = square and it = id and dc = str_t]
  by (simp add: ArgsFunction_parse_def FunctionWrapper_init_def square_def Let_def slice_to_def
      slice_from_def dict_of_def cast_of_def dict_get_def is_bool_def cast_parameter_def
      decimal_def str_int_def str_nat_small quote_def)

subsection \<open>Dictionaries\<close>

lemma map_of_dict_set: "map_of (dict_set d k v) = (map_of d)(k \<mapsto> v)"
  by (induction d) auto

lemma dict_get_set: "dict_get (dict_set d k v) k' = (if k' = k then Some v else dict_get d k')"
  by (simp add: dict_get_def map_of_dict_set)

lemma dict_has_set: "dict_has (dict_set d k v) k' = (k' = k \<or> dict_has d k')"
  by (simp add: dict_has_def map_of_dict_set)

lemma dict_get_seed:
  "dict_get (foldl (\<lambda>d n. dict_set d n v) d0 ns) k
     = (if k \<in> set ns then Some v else dict_get d0 k)"
  by (induction ns arbitrary: d0) (auto simp: dict_get_set)

subsection \<open>The keyword strategy\<close>

lemma dict_get_preseed:
  "dict_get (preseed w) n = (if n \<in> set (booleans w) then Some (PyBool False) else None)"
  by (simp add: preseed_def dict_get_seed) (simp add: dict_get_def)

text \<open>The scan never removes a key from \<^verbatim>\<open>args_dict\<close>.\<close>

lemma bundle_loop_keeps:
  "bundle_loop w s cs nm d = Inr (nm', d') \<Longrightarrow> dict_has d k \<Longrightarrow> dict_has d' k"
  by (induction cs arbitrary: nm d) (auto split: option.splits if_splits simp: dict_has_set)

lemma kw_loop_keeps:
  "kw_loop w s tokens i nm d = Inr d' \<Longrightarrow> dict_has d k \<Longrightarrow> dict_has d' k"
proof (induction w s tokens i nm d rule: kw_loop.induct)
  case (1 w s tokens i nm d)
  from "1.prems"(1) show ?case
    apply (subst (asm) kw_loop.simps)
    using "1.IH" "1.prems"(2)
    by (auto split: if_splits sum.splits option.splits cast.splits prod.splits
        simp: dict_has_set dest: bundle_loop_keeps)
qed

lemma kw_loop_done: "length tokens \<le> i \<Longrightarrow> kw_loop w s tokens i nm d = Inr d"
  by (subst kw_loop.simps) simp

text \<open>
  Claim C3.  Before the scan, \<^verbatim>\<open>args_dict\<close> maps exactly the boolean parameters, each to
  \<^verbatim>\<open>False\<close>; the result of a successful parse still has every boolean parameter as a
  key, and with no token at all it is the pre-seeded dictionary.  For
  \<^verbatim>\<open>greet(name: str, debug: bool = False)\<close>, the tokens \<^verbatim>\<open>-n Alice\<close> give
  \<^verbatim>\<open>{debug: False, name: "Alice"}\<close>, the tokens \<^verbatim>\<open>-n Alice -d\<close> give
  \<^verbatim>\<open>{debug: True, name: "Alice"}\<close>, and \<^verbatim>\<open>-d\<close> alone raises \<^verbatim>\<open>NotEnoughArgs\<close>, whose
  message lists \<^verbatim>\<open>name\<close>.
\<close>

theorem KwargsFunction_parse_preseed:
  "dict_get (preseed w) n = (if n \<in> set (booleans w) then Some (PyBool False) else None) \<and>
   (KwargsFunction_parse w tokens = Inr (a, k) \<longrightarrow> (\<forall>b \<in> set (booleans w). dict_has k b)) \<and>
   (KwargsFunction_parse w [] = Inr (a, k) \<longrightarrow> k = preseed w) \<and>
   KwargsFunction_parse (FunctionWrapper_init it Kwargs greet str_t) [''-n'', ''Alice'']
     = Inr ([], [(''debug'', PyBool False), (''name'', PyStr ''Alice'')]) \<and>
   KwargsFunction_parse (FunctionWrapper_init it Kwargs greet str_t) [''-n'', ''Alice'', ''-d'']
     = Inr ([], [(''debug'', PyBool True), (''name'', PyStr ''Alice'')]) \<and>
   KwargsFunction_parse (FunctionWrapper_init it Kwargs greet str_t) [''-d'']
     = Inl (NotEnoughArgs ''The following options are required: name.'')"
proof -
  have seeded: "dict_has (preseed w) b" if "b \<in> set (booleans w)" for b
    using that dict_get_preseed [of w b] by (simp add: dict_has_def dict_get_def)
  have present: "\<forall>b \<in> set (booleans w). dict_has k b"
    if "KwargsFunction_parse w tokens = Inr (a, k)"
    using that seeded
    by (auto simp: KwargsFunction_parse_def Let_def split: sum.splits if_splits
        dest: kw_loop_keeps)
  have empty: "k = preseed w" if "KwargsFunction_parse w [] = Inr (a, k)"
    using that
    by (auto simp: KwargsFunction_parse_def Let_def kw_loop_done split: sum.splits if_splits)
  note eval = KwargsFunction_parse_def FunctionWrapper_init_def greet_def Let_def slice_to_def
    slice_from_def dict_of_def cast_of_def dict_get_def dict_has_def is_bool_def
    cast_parameter_def shortcuts_def preseed_def preseed_name_def str_t_def kw_name_def startswith_def
    kw_loop.simps
  have ex1: "KwargsFunction_parse (FunctionWrapper_init it Kwargs greet str_t) [''-n'', ''Alice'']
     = Inr ([], [(''debug'', PyBool False), (''name'', PyStr ''Alice'')])"
    by (simp add: eval)
  have ex2: "KwargsFunction_parse (FunctionWrapper_init it Kwargs greet str_t) [''-n'', ''Alice'', ''-d'']
     = Inr ([], [(''debug'', PyBool True), (''name'', PyStr ''Alice'')])"
    by (simp add: eval)
  have ex3: "KwargsFunction_parse (FunctionWrapper_init it Kwargs greet str_t) [''-d'']
     = Inl (NotEnoughArgs ''The following options are required: name.'')"
    by (simp add: eval)
  show ?thesis using dict_get_preseed present empty ex1 ex2 ex3 by blast
qed

theorem KwargsFunction_parse_preseed_witness:
  "KwargsFunction_parse (FunctionWrapper_init id Kwargs greet str_t) []
     = Inl (NotEnoughArgs ''The following options are required: name.'') \<and>
   dict_get (preseed (FunctionWrapper_init id Kwargs greet str_t)) ''debug'' = Some (PyBool False) \<and>
   dict_get (preseed (FunctionWrapper_init id Kwargs greet str_t)) ''name'' = None \<and>
   KwargsFunction_parse (FunctionWrapper_init id Kwargs greet str_t) [''-n'', ''Alice'']
     = Inr ([], [(''debug'', PyBool False), (''name'', PyStr ''Alice'')]) \<and>
   dict_has [(''debug'', PyBool False), (''name'', PyStr ''Alice'')] ''debug'' \<and>
   KwargsFunction_parse (FunctionWrapper_init id Kwargs greet str_t) [''-'', ''-n'', ''Alice'']
     = Inr ([], [(''debug'', PyBool True), (''name'', PyStr ''Alice'')]) \<and>
   dict_has [(''debug'', PyBool True), (''name'', PyStr ''Alice'')] ''debug''"
proof -
  let ?w = "FunctionWrapper_init id Kwargs greet str_t"
  have b: "booleans ?w = [''debug'']"
    by code_simp
  have h: "KwargsFunction_parse ?w [''-'', ''-n'', ''Alice'']
     = Inr ([], [(''debug'', PyBool True), (''name'', PyStr ''Alice'')])"
    by code_simp
  have e: "KwargsFunction_parse ?w [] = Inl (NotEnoughArgs ''The following options are required: name.'')"
    by code_simp
  show ?thesis
    using e b h
      KwargsFunction_parse_preseed [where w = ?w and n = "''debug''" and it = id
        and tokens = "[''-'', ''-n'', ''Alice'']" and a = "[]"
        and k = "[(''debug'', PyBool True), (''name'', PyStr ''Alice'')]"]
      KwargsFunction_parse_preseed [where w = ?w and n = "''debug''" and it = id
        and tokens = "[''-n'', ''Alice'']" and a = "[]"
        and k = "[(''debug'', PyBool False), (''name'', PyStr ''Alice'')]"]
      KwargsFunction_parse_preseed [where w = ?w and n = "''name''" and it = id]
    by simp
qed

text \<open>
  A token that is \<^verbatim>\<open>-\<close> alone reads the variable \<^verbatim>\<open>name\<close> as the pre-seeding loop left
  it: with a boolean parameter it sets the last of them, and without one it raises
  \<^verbatim>\<open>UnboundLocalError\<close>.
\<close>

lemma KwargsFunction_parse_lone_hyphen:
  "KwargsFunction_parse (FunctionWrapper_init id Kwargs greet str_t) [''-'', ''-n'', ''Alice'']
     = Inr ([], [(''debug'', PyBool True), (''name'', PyStr ''Alice'')])"
  "KwargsFunction_parse (FunctionWrapper_init id Kwargs square str_t) [''-'']
     = Inl (UnboundLocalError ''name'')"
  by code_simp+

text \<open>
  A token in switch position that does not start with \<^verbatim>\<open>-\<close>, and a long form whose
  name is not a parameter name, raise \<^verbatim>\<open>PyoptError\<close> wherever the scan meets them.
\<close>

lemma startswith_dash: "startswith s ''-'' = (\<exists>t. s = CHR ''-'' # t)"
  by (cases s) (auto simp: startswith_def)

lemma startswith_dashes: "startswith s ''--'' = (\<exists>t. s = CHR ''-'' # CHR ''-'' # t)"
proof (cases s)
  case Nil
  then show ?thesis by (simp add: startswith_def)
next
  case (Cons c t)
  then show ?thesis by (cases t) (auto simp: startswith_def)
qed

lemma kw_loop_plain_token:
  "i < length tokens \<Longrightarrow> \<not> startswith (tokens ! i) ''-'' \<Longrightarrow>
   kw_loop w s tokens i nm d
     = Inl (PyoptError (''Options must start with '' @ quote ''-'' @ '' or '' @ quote ''--'' @ ''.''))"
  by (subst kw_loop.simps) (auto simp: kw_name_def startswith_dash startswith_dashes)

lemma kw_loop_unknown_long:
  "i < length tokens \<Longrightarrow> tokens ! i = ''--'' @ n \<Longrightarrow> n \<notin> set (arg_names w) \<Longrightarrow>
   kw_loop w s tokens i nm d = Inl (PyoptError (''Illegal option '' @ quote n @ '' given.''))"
  by (subst kw_loop.simps) (simp add: kw_name_def startswith_dash startswith_dashes)

text \<open>
  A short form whose letter is not in the shortcut table raises the \<^verbatim>\<open>KeyError\<close> of the
  table lookup, before the check that raises \<^verbatim>\<open>PyoptError\<close> for an unknown name.
\<close>

lemma kw_loop_unknown_short:
  "i < length tokens \<Longrightarrow> tokens ! i = [CHR ''-'', x] \<Longrightarrow> x \<noteq> CHR ''-'' \<Longrightarrow>
   dict_get s x = None \<Longrightarrow> kw_loop w s tokens i nm d = Inl (KeyError [x])"
  by (subst kw_loop.simps) (simp add: kw_name_def startswith_dash startswith_dashes)

text \<open>
  Claim C4, at the input where the code departs from it: for
  \<^verbatim>\<open>greet(name: str, debug: bool = False)\<close> the token \<^verbatim>\<open>-x\<close> names no parameter, and the
  parse raises \<^verbatim>\<open>KeyError\<close>, which is not a \<^verbatim>\<open>PyoptError\<close>.
\<close>

theorem KwargsFunction_parse_unknown_short:
  "KwargsFunction_parse (FunctionWrapper_init id Kwargs greet str_t) [''-x''] = Inl (KeyError ''x'') \<and>
   \<not> is_PyoptError (KeyError ''x'')"
  by (simp add: KwargsFunction_parse_def FunctionWrapper_init_def greet_def Let_def slice_to_def
    slice_from_def dict_of_def cast_of_def dict_get_def dict_has_def is_bool_def
    cast_parameter_def shortcuts_def preseed_def preseed_name_def str_t_def kw_name_def startswith_def
    kw_loop.simps)

subsection \<open>The shape of the results\<close>

text \<open>
  Claim C9.  A successful parse of the positional strategy has an empty keyword mapping,
  and a successful parse of the keyword strategy has an empty positional sequence.
\<close>

theorem parse_result_shape:
  "(ArgsFunction_parse w tokens = Inr (a, k) \<longrightarrow> k = []) \<and>
   (KwargsFunction_parse w' tokens' = Inr (a', k') \<longrightarrow> a' = [])"
  by (auto simp: ArgsFunction_parse_def KwargsFunction_parse_def Let_def
      split: if_splits sum.splits)

theorem parse_result_shape_witness:
  "ArgsFunction_parse (FunctionWrapper_init id Args greet str_t) [''Alice'', ''yes'']
     = Inr ([PyStr ''Alice'', PyBool True], []) \<and>
   KwargsFunction_parse (FunctionWrapper_init id Kwargs greet str_t) [''-'', ''--name'', ''Alice'']
     = Inr ([], [(''debug'', PyBool True), (''name'', PyStr ''Alice'')])"
proof -
  have 1: "ArgsFunction_parse (FunctionWrapper_init id Args greet str_t) [''Alice'', ''yes'']
     = Inr ([PyStr ''Alice'', PyBool True], [])"
    by code_simp
  have 2: "KwargsFunction_parse (FunctionWrapper_init id Kwargs greet str_t) [''-'', ''--name'', ''Alice'']
     = Inr ([], [(''debug'', PyBool True), (''name'', PyStr ''Alice'')])"
    by code_simp
  from 1 2 show ?thesis
    using parse_result_shape [where w = "FunctionWrapper_init id Args greet str_t"
        and tokens = "[''Alice'', ''yes'']" and w' = "FunctionWrapper_init id Kwargs greet str_t"
        and tokens' = "[''-'', ''--name'', ''Alice'']"
        and a = "[PyStr ''Alice'', PyBool True]" and k = "[]" and a' = "[]"
        and k' = "[(''debug'', PyBool True), (''name'', PyStr ''Alice'')]"]
    by simp
qed

subsection \<open>The scanner and the mixed strategy\<close>

lemma do_shorts_append:
  "do_shorts opts optstring sh args = Inr (opts', args') \<Longrightarrow>
   do_shorts opts optstring sh (args @ extra) = Inr (opts', args' @ extra)"
  by (induction optstring arbitrary: opts)
     (auto split: sum.splits bool.splits if_splits list.splits)

lemma do_longs_append:
  "do_longs opts opt lo args = Inr (opts', args') \<Longrightarrow>
   do_longs opts opt lo (args @ extra) = Inr (opts', args' @ extra)"
  by (auto simp: do_longs_def Let_def split: sum.splits if_splits option.splits list.splits)

lemma getopt_loop_plain:
  "\<not> looks_like_option p \<Longrightarrow> getopt_loop opts (p # rest) sh lo = Inr (opts, p # rest)"
  by (auto simp: looks_like_option_def)

lemma getopt_loop_append:
  "getopt_loop opts args sh lo = Inr (opts', remaining) \<Longrightarrow>
   (remaining = [] \<Longrightarrow> extra = [] \<or> \<not> looks_like_option (hd extra)) \<Longrightarrow>
   getopt_loop opts (args @ extra) sh lo = Inr (opts', remaining @ extra)"
proof (induction opts args sh lo rule: getopt_loop.induct)
  case (1 opts sh lo)
  then show ?case by (cases extra) (auto simp: looks_like_option_def)
next
  case (2 opts a args sh lo)
  show ?case
  proof (cases "startswith a ''-'' \<and> a \<noteq> ''-''")
    case False
    with "2.prems" show ?thesis by auto
  next
    case opt: True
    show ?thesis
    proof (cases "a = ''--''")
      case True
      with "2.prems" opt show ?thesis by auto
    next
      case ndd: False
      show ?thesis
      proof (cases "startswith a ''--''")
        case True
        with "2.prems"(1) opt ndd obtain o1 a1 where
          d: "do_longs opts (drop 2 a) lo args = Inr (o1, a1)"
          and r: "getopt_loop o1 a1 sh lo = Inr (opts', remaining)"
          by (auto split: sum.splits)
        from "2.IH"(1) [OF opt ndd True d refl r "2.prems"(2)]
        have "getopt_loop o1 (a1 @ extra) sh lo = Inr (opts', remaining @ extra)" by simp
        then show ?thesis using opt ndd True do_longs_append [OF d, of extra] by simp
      next
        case False
        with "2.prems"(1) opt ndd obtain o1 a1 where
          d: "do_shorts opts (drop 1 a) sh args = Inr (o1, a1)"
          and r: "getopt_loop o1 a1 sh lo = Inr (opts', remaining)"
          by (auto split: sum.splits)
        from "2.IH"(2) [OF opt ndd False d refl r "2.prems"(2)]
        have "getopt_loop o1 (a1 @ extra) sh lo = Inr (opts', remaining @ extra)" by simp
        then show ?thesis using opt ndd False do_shorts_append [OF d, of extra] by simp
      qed
    qed
  qed
qed

lemma switch_loop_keeps:
  "switch_loop w s optlist nm kw0 pos0 = Inr (kw, pos) \<Longrightarrow> dict_has kw0 n \<Longrightarrow> dict_has kw n"
  by (induction optlist arbitrary: nm kw0 pos0)
     (auto split: sum.splits if_splits simp: dict_has_set)

lemma switch_loop_cover:
  "switch_loop w s optlist nm kw0 pos0 = Inr (kw, pos) \<Longrightarrow> n \<in> set pos0 \<Longrightarrow>
   n \<in> set pos \<or> dict_has kw n"
proof (induction optlist arbitrary: nm kw0 pos0)
  case Nil
  then show ?case by simp
next
  case (Cons ov optlist)
  obtain opt val where ov: "ov = (opt, val)" by (cases ov)
  from Cons.prems(1) obtain m v where
    m: "switch_name s opt nm = Inr m" "cast_parameter w m val = Inr v" "m \<in> set pos0"
    and r: "switch_loop w s optlist (Some m) (dict_set kw0 m v) (remove1 m pos0) = Inr (kw, pos)"
    by (auto simp: ov split: sum.splits if_splits)
  show ?case
  proof (cases "n = m")
    case True
    then have "dict_has (dict_set kw0 m v) n" by (simp add: dict_has_set)
    from switch_loop_keeps [OF r this] show ?thesis by simp
  next
    case False
    with Cons.prems(2) have "n \<in> set (remove1 m pos0)" by simp
    from Cons.IH [OF r this] show ?thesis .
  qed
qed

lemma switch_loop_pos:
  "switch_loop w s optlist nm kw0 pos0 = Inr (kw, pos) \<Longrightarrow> distinct names \<Longrightarrow>
   pos0 = filter (\<lambda>n. \<not> dict_has kw0 n) names \<Longrightarrow>
   pos = filter (\<lambda>n. \<not> dict_has kw n) names"
proof (induction optlist arbitrary: nm kw0 pos0)
  case Nil
  then show ?case by auto
next
  case (Cons ov optlist)
  obtain opt val where ov: "ov = (opt, val)" by (cases ov)
  from Cons.prems(1) obtain m v where
    m: "switch_name s opt nm = Inr m" "cast_parameter w m val = Inr v" "m \<in> set pos0"
    and r: "switch_loop w s optlist (Some m) (dict_set kw0 m v) (remove1 m pos0) = Inr (kw, pos)"
    by (auto simp: ov split: sum.splits if_splits)
  have d: "distinct pos0" using Cons.prems(2,3) by simp
  have "remove1 m pos0 = filter (\<lambda>n. n \<noteq> m) pos0"
    using d by (simp add: distinct_remove1_removeAll removeAll_filter_not_eq) metis
  also have "\<dots> = filter (\<lambda>n. \<not> dict_has (dict_set kw0 m v) n) names"
    by (auto simp: Cons.prems(3) dict_has_set intro: filter_cong)
  finally show ?case using Cons.IH [OF r Cons.prems(2)] by simp
qed

lemma fill_loop_ok:
  "\<forall>i < length ps. \<exists>v. cast_parameter w (fst (ps ! i)) (snd (ps ! i)) = Inr v \<Longrightarrow>
   fill_loop w ps a g =
     Inr (a @ map (\<lambda>p. projr (cast_parameter w (fst p) (snd p))) ps, g @ map fst ps)"
proof (induction ps arbitrary: a g)
  case Nil
  then show ?case by simp
next
  case (Cons p ps)
  obtain n t where p: "p = (n, t)" by (cases p)
  from Cons.prems have "\<exists>v. cast_parameter w (fst ((p # ps) ! 0)) (snd ((p # ps) ! 0)) = Inr v"
    by blast
  then obtain v where v: "cast_parameter w n t = Inr v" by (auto simp: p)
  have rest: "\<forall>i < length ps. \<exists>v. cast_parameter w (fst (ps ! i)) (snd (ps ! i)) = Inr v"
  proof (intro allI impI)
    fix i assume "i < length ps"
    then have "Suc i < length (p # ps)" by simp
    with Cons.prems
    have "\<exists>v. cast_parameter w (fst ((p # ps) ! Suc i)) (snd ((p # ps) ! Suc i)) = Inr v"
      by blast
    then show "\<exists>v. cast_parameter w (fst (ps ! i)) (snd (ps ! i)) = Inr v" by simp
  qed
  show ?case using Cons.IH [OF rest, of "a @ [v]" "g @ [n]"] v by (simp add: p)
qed

lemma fill_loop_fail:
  "i < length ps \<Longrightarrow> cast_parameter w (fst (ps ! i)) (snd (ps ! i)) = Inl e \<Longrightarrow>
   \<exists>m. fill_loop w ps a g = Inl (PyoptError m)"
proof (induction ps arbitrary: a g i)
  case Nil
  then show ?case by simp
next
  case (Cons p ps)
  obtain n t where p: "p = (n, t)" by (cases p)
  show ?case
  proof (cases "cast_parameter w n t")
    case (Inl e')
    then show ?thesis using cast_parameter_error [OF Inl] by (auto simp: p)
  next
    case (Inr v)
    with Cons.prems obtain j where j: "i = Suc j" by (cases i) (auto simp: p)
    with Cons.prems have "j < length ps" "cast_parameter w (fst (ps ! j)) (snd (ps ! j)) = Inl e"
      by auto
    from Cons.IH [OF this] show ?thesis using Inr by (simp add: p)
  qed
qed

lemma fill_loop_result:
  "fill_loop w ps a g = Inr (args, given) \<Longrightarrow>
   args = a @ map (\<lambda>p. projr (cast_parameter w (fst p) (snd p))) ps \<and> given = g @ map fst ps"
proof (induction ps arbitrary: a g)
  case Nil
  then show ?case by simp
next
  case (Cons p ps)
  obtain n t where p: "p = (n, t)" by (cases p)
  from Cons.prems obtain v where v: "cast_parameter w n t = Inr v"
    and r: "fill_loop w ps (a @ [v]) (g @ [n]) = Inr (args, given)"
    by (auto simp: p split: sum.splits)
  from Cons.IH [OF r] show ?case using v by (simp add: p)
qed

lemma init_required_subset:
  "set (required (FunctionWrapper_init it k f dc)) \<subseteq> set (fn_args f)"
  by (auto simp: FunctionWrapper_init_def Let_def slice_to_def dest: in_set_takeD)

text \<open>
  Claim C8, at the input where the code departs from it.  For
  \<^verbatim>\<open>login(user: str, debug: bool = False)\<close> the short specification is \<^verbatim>\<open>debugu:\<close> and
  not \<^verbatim>\<open>du:\<close>: every letter of the boolean parameter's name is a short option without
  argument.  So \<^verbatim>\<open>-u bob\<close> is scanned as the flag \<^verbatim>\<open>u\<close> of \<^verbatim>\<open>debug\<close>, the parameter
  \<^verbatim>\<open>user\<close> gets the empty string and \<^verbatim>\<open>bob\<close> is left as a plain token; and \<^verbatim>\<open>-e\<close> passes
  the scanner and raises \<^verbatim>\<open>KeyError\<close> in the shortcut table.  The long options are as
  the claim says.
\<close>

theorem MixedFunction_option_specs:
  "shorts_str (FunctionWrapper_init id Mixed login str_t) = Inr ''debugu:'' \<and>
   long_opts (FunctionWrapper_init id Mixed login str_t) = [''debug'', ''user=''] \<and>
   MixedFunction_parse (FunctionWrapper_init id Mixed login str_t) [''-u'', ''bob'']
     = Inr ([PyBool True], [(''user'', PyStr [])]) \<and>
   MixedFunction_parse (FunctionWrapper_init id Mixed login str_t) [''-e'']
     = Inl (KeyError ''e'')"
  by code_simp

text \<open>
  Claim C7 as first stated: a switch after a plain token is consumed as a switch.  For
  \<^verbatim>\<open>copy(source: str, target: str, debug: bool = False)\<close> the tokens \<^verbatim>\<open>a.txt -d\<close> are both
  assigned positionally, \<^verbatim>\<open>-d\<close> as the value of \<^verbatim>\<open>target\<close>, and no switch is set.
\<close>

theorem MixedFunction_parse_switch_after_plain:
  "MixedFunction_parse (FunctionWrapper_init id Mixed copy str_t) [''a.txt'', ''-d'']
     = Inr ([PyStr ''a.txt'', PyStr ''-d''], [])"
  by code_simp

text \<open>A \<^verbatim>\<open>--\<close> that the scanner meets where it looks for an option ends the scan.\<close>

lemma getopt_loop_dashes:
  "getopt_loop opts pre sh lo = Inr (opts', []) \<Longrightarrow>
   getopt_loop opts (pre @ [''--'']) sh lo = Inr (opts', []) \<Longrightarrow>
   getopt_loop opts (pre @ ''--'' # rest) sh lo = Inr (opts', rest)"
proof (induction opts pre sh lo rule: getopt_loop.induct)
  case (1 opts sh lo)
  then show ?case by (simp add: startswith_def)
next
  case (2 opts a args sh lo)
  show ?case
  proof (cases "startswith a ''-'' \<and> a \<noteq> ''-''")
    case False
    with "2.prems" show ?thesis by auto
  next
    case opt: True
    show ?thesis
    proof (cases "a = ''--''")
      case True
      with "2.prems" opt show ?thesis by (auto simp: startswith_def)
    next
      case ndd: False
      show ?thesis
      proof (cases "startswith a ''--''")
        case True
        with "2.prems"(1) opt ndd obtain o1 a1 where
          d: "do_longs opts (drop 2 a) lo args = Inr (o1, a1)"
          and r: "getopt_loop o1 a1 sh lo = Inr (opts', [])"
          by (auto split: sum.splits)
        from "2.prems"(2) opt ndd True do_longs_append [OF d, of "[''--'']"]
        have r2: "getopt_loop o1 (a1 @ [''--'']) sh lo = Inr (opts', [])" by simp
        from "2.IH"(1) [OF opt ndd True d refl r r2]
        have "getopt_loop o1 (a1 @ ''--'' # rest) sh lo = Inr (opts', rest)" .
        then show ?thesis using opt ndd True do_longs_append [OF d, of "''--'' # rest"] by simp
      next
        case False
        with "2.prems"(1) opt ndd obtain o1 a1 where
          d: "do_shorts opts (drop 1 a) sh args = Inr (o1, a1)"
          and r: "getopt_loop o1 a1 sh lo = Inr (opts', [])"
          by (auto split: sum.splits)
        from "2.prems"(2) opt ndd False do_shorts_append [OF d, of "[''--'']"]
        have r2: "getopt_loop o1 (a1 @ [''--'']) sh lo = Inr (opts', [])" by simp
        from "2.IH"(2) [OF opt ndd False d refl r r2]
        have "getopt_loop o1 (a1 @ ''--'' # rest) sh lo = Inr (opts', rest)" .
        then show ?thesis using opt ndd False do_shorts_append [OF d, of "''--'' # rest"] by simp
      qed
    qed
  qed
qed

text \<open>
  Claim C7, as amended.  Switches are consumed from the front of the token list only.
  Let the scanner consume the whole of \<open>pre\<close> as switches and their values.  When the
  next token \<open>p\<close> does not look like an option, the scan ends there and leaves
  \<open>p # rest\<close>, whatever \<open>rest\<close> holds; when the next token is a \<^verbatim>\<open>--\<close> that the
  scanner takes as the end of the options, the scan ends there, drops the \<^verbatim>\<open>--\<close> and
  leaves \<open>rest\<close>.  The tokens that the scanner leaves are assigned, in order, to the
  declared parameters that no switch has set, each cast by the cast of its own
  parameter.
\<close>

theorem MixedFunction_parse_stops_at_plain:
  assumes sc: "shortcuts w = Inr s"
    and ss: "shorts_str w = Inr sh"
    and dist: "distinct (arg_names w)"
  shows "(getopt pre sh (long_opts w) = Inr (optlist, []) \<and> \<not> looks_like_option p \<longrightarrow>
            getopt (pre @ p # rest) sh (long_opts w) = Inr (optlist, p # rest)) \<and>
         (getopt pre sh (long_opts w) = Inr (optlist, []) \<and>
          getopt (pre @ [''--'']) sh (long_opts w) = Inr (optlist, []) \<longrightarrow>
            getopt (pre @ ''--'' # rest) sh (long_opts w) = Inr (optlist, rest)) \<and>
         (getopt tokens sh (long_opts w) = Inr (switches, plain) \<longrightarrow>
            MixedFunction_parse w tokens = mixed_assign w s switches plain \<and>
            (MixedFunction_parse w tokens = Inr (args, kw) \<longrightarrow>
               args = map (\<lambda>(n, t). projr (cast_parameter w n t))
                        (zip (filter (\<lambda>n. \<not> dict_has kw n) (arg_names w)) plain)))"
proof -
  have i: "getopt (pre @ p # rest) sh (long_opts w) = Inr (optlist, p # rest)"
    if g: "getopt pre sh (long_opts w) = Inr (optlist, [])" and p: "\<not> looks_like_option p"
    using getopt_loop_append [of "[]" pre sh "long_opts w" optlist "[]" "p # rest"] g p
    by (simp add: getopt_def)
  have ii: "getopt (pre @ ''--'' # rest) sh (long_opts w) = Inr (optlist, rest)"
    if "getopt pre sh (long_opts w) = Inr (optlist, [])"
      "getopt (pre @ [''--'']) sh (long_opts w) = Inr (optlist, [])"
    using that getopt_loop_dashes [of "[]" pre sh "long_opts w" optlist rest]
    by (simp add: getopt_def)
  have m: "MixedFunction_parse w tokens = mixed_assign w s switches plain"
    if g: "getopt tokens sh (long_opts w) = Inr (switches, plain)"
    by (simp add: MixedFunction_parse_def sc ss g)
  have a: "args = map (\<lambda>(n, t). projr (cast_parameter w n t))
                     (zip (filter (\<lambda>n. \<not> dict_has kw n) (arg_names w)) plain)"
    if g: "getopt tokens sh (long_opts w) = Inr (switches, plain)"
      and ok: "MixedFunction_parse w tokens = Inr (args, kw)"
  proof -
    from ok m [OF g] obtain pos given where
      sw: "switch_loop w s switches None [] (arg_names w) = Inr (kw, pos)"
      and fl: "fill_loop w (zip pos plain) [] [] = Inr (args, given)"
      by (auto simp: mixed_assign_def Let_def split: sum.splits if_splits)
    have "arg_names w = filter (\<lambda>n. \<not> dict_has ([] :: (string, pyval) dict) n) (arg_names w)"
      by (simp add: dict_has_def)
    from switch_loop_pos [OF sw dist this]
    have pos: "pos = filter (\<lambda>n. \<not> dict_has kw n) (arg_names w)" .
    from fill_loop_result [OF fl] show ?thesis
      by (simp add: pos case_prod_unfold)
  qed
  show ?thesis using i ii m a by blast
qed

theorem MixedFunction_parse_stops_at_plain_witness:
  "getopt [''-d'', ''a.txt'', ''-s'', ''x''] ''debugs:t:'' [''debug'', ''source='', ''target='']
     = Inr ([(''-d'', [])], [''a.txt'', ''-s'', ''x'']) \<and>
   getopt [''--'', ''-d'', ''x''] ''debugs:t:'' [''debug'', ''source='', ''target='']
     = Inr ([], [''-d'', ''x'']) \<and>
   MixedFunction_parse (FunctionWrapper_init id Mixed copy str_t) [''-d'', ''a.txt'', ''-s'', ''x'']
     = Inr ([PyStr ''a.txt'', PyStr ''-s''], [(''debug'', PyBool True)])"
proof -
  let ?w = "FunctionWrapper_init id Mixed copy str_t"
  have sc: "shortcuts ?w = Inr [(CHR ''s'', ''source''), (CHR ''t'', ''target''), (CHR ''d'', ''debug'')]"
    by code_simp
  have ss: "shorts_str ?w = Inr ''debugs:t:''" by code_simp
  have lo: "long_opts ?w = [''debug'', ''source='', ''target='']" by code_simp
  have d: "distinct (arg_names ?w)" by code_simp
  note rule = MixedFunction_parse_stops_at_plain [OF sc ss d]
  have g: "getopt [''-d''] ''debugs:t:'' (long_opts ?w) = Inr ([(''-d'', [])], [])" by code_simp
  have p: "\<not> looks_like_option ''a.txt''" by code_simp
  have first: "getopt ([''-d''] @ ''a.txt'' # [''-s'', ''x'']) ''debugs:t:'' (long_opts ?w)
      = Inr ([(''-d'', [])], ''a.txt'' # [''-s'', ''x''])"
    using rule [where pre = "[''-d'']" and p = "''a.txt''" and rest = "[''-s'', ''x'']"
        and optlist = "[(''-d'', [])]", THEN conjunct1] g p
    by blast
  have g0: "getopt [] ''debugs:t:'' (long_opts ?w) = Inr ([], [])" by code_simp
  have g1: "getopt ([] @ [''--'']) ''debugs:t:'' (long_opts ?w) = Inr ([], [])" by code_simp
  have second: "getopt ([] @ ''--'' # [''-d'', ''x'']) ''debugs:t:'' (long_opts ?w)
      = Inr ([], [''-d'', ''x''])"
    using rule [where pre = "[]" and rest = "[''-d'', ''x'']" and optlist = "[]",
        THEN conjunct2, THEN conjunct1] g0 g1
    by blast
  have e: "MixedFunction_parse ?w [''-d'', ''a.txt'', ''-s'', ''x'']
     = Inr ([PyStr ''a.txt'', PyStr ''-s''], [(''debug'', PyBool True)])"
    by code_simp
  have f: "filter (\<lambda>n. \<not> dict_has [(''debug'', PyBool True)] n) (arg_names ?w)
      = [''source'', ''target'']" by code_simp
  have third: "[PyStr ''a.txt'', PyStr ''-s''] = map (\<lambda>(n, t). projr (cast_parameter ?w n t))
      (zip (filter (\<lambda>n. \<not> dict_has [(''debug'', PyBool True)] n) (arg_names ?w))
         [''a.txt'', ''-s'', ''x''])"
    using rule [where tokens = "[''-d'', ''a.txt'', ''-s'', ''x'']"
        and switches = "[(''-d'', [])]" and plain = "[''a.txt'', ''-s'', ''x'']"
        and args = "[PyStr ''a.txt'', PyStr ''-s'']" and kw = "[(''debug'', PyBool True)]",
        THEN conjunct2, THEN conjunct2] first e
    by simp
  from first second third e lo show ?thesis by simp
qed

text \<open>
  Claim C10.  Let the scanner leave the plain tokens \<open>assigned @ excess\<close>, where
  \<open>assigned\<close> has one token for each parameter \<open>pos\<close> that no switch has set.  Then the
  outcome does not depend on \<open>excess\<close>: when the casts of the assigned tokens succeed,
  the parse succeeds with exactly these cast values and the keyword mapping of the
  switches, and otherwise it raises the \<^verbatim>\<open>PyoptError\<close> of a failing cast.  No
  too-many-tokens error and no \<^verbatim>\<open>NotEnoughArgs\<close> is raised, and the excess tokens are in
  neither result: the outcome is that of the assigned tokens alone.
\<close>

theorem MixedFunction_parse_excess_ignored:
  fixes f :: pyfunction and it :: "string list \<Rightarrow> string list" and dc :: cast
  defines "w \<equiv> FunctionWrapper_init it Mixed f dc"
  assumes sc: "shortcuts w = Inr s"
    and ss: "shorts_str w = Inr sh"
    and g: "getopt tokens sh (long_opts w) = Inr (optlist, assigned @ excess)"
    and sw: "switch_loop w s optlist None [] (arg_names w) = Inr (kw, pos)"
    and len: "length assigned = length pos"
  shows "MixedFunction_parse w tokens = mixed_assign w s optlist assigned \<and>
         ((\<forall>i<length pos. \<exists>v. cast_parameter w (pos ! i) (assigned ! i) = Inr v) \<longrightarrow>
            MixedFunction_parse w tokens =
              Inr (map (\<lambda>i. projr (cast_parameter w (pos ! i) (assigned ! i))) [0..<length pos], kw)) \<and>
         ((\<exists>i<length pos. \<exists>e. cast_parameter w (pos ! i) (assigned ! i) = Inl e) \<longrightarrow>
            (\<exists>m. MixedFunction_parse w tokens = Inl (PyoptError m)))"
proof -
  let ?ps = "zip pos (assigned @ excess)"
  have zp: "?ps = zip pos assigned" using len by (simp add: zip_append2)
  have lps: "length ?ps = length pos" using len by (simp add: zip_append2)
  have m: "MixedFunction_parse w tokens = mixed_assign w s optlist (assigned @ excess)"
    by (simp add: MixedFunction_parse_def sc ss g)
  have req: "set (required w) \<subseteq> set (arg_names w)"
    unfolding w_def using init_required_subset [of it Mixed f dc] by (simp add: init_arg_names)
  have given: "filter (\<lambda>arg. arg \<notin> set (map fst ?ps))
                 (filter (\<lambda>arg. \<not> dict_has kw arg) (required w)) = []"
  proof -
    have "map fst ?ps = pos" using len by (simp add: zp)
    moreover have "n \<in> set pos" if "n \<in> set (required w)" "\<not> dict_has kw n" for n
      using switch_loop_cover [OF sw, of n] that req by auto
    ultimately show ?thesis by (auto simp: filter_empty_conv)
  qed
  have c1: "MixedFunction_parse w tokens =
              Inr (map (\<lambda>i. projr (cast_parameter w (pos ! i) (assigned ! i))) [0..<length pos], kw)"
    if ok: "\<forall>i<length pos. \<exists>v. cast_parameter w (pos ! i) (assigned ! i) = Inr v"
  proof -
    have "\<forall>i < length ?ps. \<exists>v. cast_parameter w (fst (?ps ! i)) (snd (?ps ! i)) = Inr v"
      using ok len by (simp add: zp)
    from fill_loop_ok [OF this, of "[]" "[]"]
    have fl: "fill_loop w ?ps [] [] =
        Inr (map (\<lambda>p. projr (cast_parameter w (fst p) (snd p))) ?ps, map fst ?ps)"
      by simp
    have "map (\<lambda>p. projr (cast_parameter w (fst p) (snd p))) ?ps
        = map (\<lambda>i. projr (cast_parameter w (pos ! i) (assigned ! i))) [0..<length pos]"
      using len by (intro nth_equalityI) (simp_all add: zp)
    then show ?thesis using fl given by (simp add: m mixed_assign_def sw Let_def)
  qed
  have c2: "\<exists>m. MixedFunction_parse w tokens = Inl (PyoptError m)"
    if bad: "\<exists>i<length pos. \<exists>e. cast_parameter w (pos ! i) (assigned ! i) = Inl e"
  proof -
    from bad obtain i e where i: "i < length pos" "cast_parameter w (pos ! i) (assigned ! i) = Inl e"
      by blast
    then have "i < length ?ps" "cast_parameter w (fst (?ps ! i)) (snd (?ps ! i)) = Inl e"
      using len by (simp_all add: zp)
    from fill_loop_fail [OF this, of "[]" "[]"] obtain m' where
      "fill_loop w ?ps [] [] = Inl (PyoptError m')" by blast
    then show ?thesis by (simp add: m mixed_assign_def sw)
  qed
  have c0: "MixedFunction_parse w tokens = mixed_assign w s optlist assigned"
    by (simp add: m mixed_assign_def sw zp)
  show ?thesis using c0 c1 c2 by blast
qed

theorem MixedFunction_parse_excess_ignored_witness:
  "MixedFunction_parse (FunctionWrapper_init id Mixed copy str_t) [''-d'', ''a'', ''b'', ''c'', ''d'']
     = Inr ([PyStr ''a'', PyStr ''b''], [(''debug'', PyBool True)]) \<and>
   (\<exists>m. MixedFunction_parse (FunctionWrapper_init id Mixed square str_t) [''abc'', ''7'']
     = Inl (PyoptError m))"
proof -
  let ?q = "FunctionWrapper_init id Mixed square str_t"
  have qsc: "shortcuts ?q = Inr [(CHR ''x'', ''x'')]" by code_simp
  have qss: "shorts_str ?q = Inr ''x:''" by code_simp
  have qg: "getopt [''abc'', ''7''] ''x:'' (long_opts ?q) = Inr ([], [''abc''] @ [''7''])"
    by code_simp
  have qsw: "switch_loop ?q [(CHR ''x'', ''x'')] [] None [] (arg_names ?q) = Inr ([], [''x''])"
    by (simp add: init_arg_names square_def)
  have qlen: "length [''abc''] = length [''x'']" by simp
  have qc: "cast_parameter ?q ''x'' ''abc''
      = Inl (PyoptError (''Failed parsing '' @ quote ''x'' @ '', not a decimal numeral.''))"
    by code_simp
  have qbad: "\<exists>i<length [''x'']. \<exists>e. cast_parameter ?q ([''x''] ! i) ([''abc''] ! i) = Inl e"
    using qc by auto
  have second: "\<exists>m. MixedFunction_parse ?q [''abc'', ''7''] = Inl (PyoptError m)"
    using MixedFunction_parse_excess_ignored [OF qsc qss qg qsw qlen] qbad by blast
  let ?w = "FunctionWrapper_init id Mixed copy str_t"
  let ?s = "[(CHR ''s'', ''source''), (CHR ''t'', ''target''), (CHR ''d'', ''debug'')]"
  have sc: "shortcuts ?w = Inr ?s" by code_simp
  have ss: "shorts_str ?w = Inr ''debugs:t:''" by code_simp
  have g: "getopt [''-d'', ''a'', ''b'', ''c'', ''d''] ''debugs:t:'' (long_opts ?w)
     = Inr ([(''-d'', [])], [''a'', ''b''] @ [''c'', ''d''])" by code_simp
  have sw: "switch_loop ?w ?s [(''-d'', [])] None [] (arg_names ?w)
     = Inr ([(''debug'', PyBool True)], [''source'', ''target''])" by code_simp
  have len: "length [''a'', ''b''] = length [''source'', ''target'']" by simp
  have c: "cast_parameter ?w ''source'' ''a'' = Inr (PyStr ''a'')"
    "cast_parameter ?w ''target'' ''b'' = Inr (PyStr ''b'')" by code_simp+
  have all: "\<forall>i<length [''source'', ''target''].
      \<exists>v. cast_parameter ?w ([''source'', ''target''] ! i) ([''a'', ''b''] ! i) = Inr v"
    using c by (simp add: less_Suc_eq numeral_2_eq_2)
  have m: "map (\<lambda>i. projr (cast_parameter ?w ([''source'', ''target''] ! i) ([''a'', ''b''] ! i)))
       [0..<length [''source'', ''target'']] = [PyStr ''a'', PyStr ''b'']"
    using c by (simp add: upt_rec numeral_2_eq_2)
  from MixedFunction_parse_excess_ignored [OF sc ss g sw len, THEN conjunct2, THEN conjunct1]
    all m second
  show ?thesis by simp
qed

subsection \<open>The docstring annotator\<close>















subsection \<open>The coordinator\<close>

text \<open>
  Claim C6, as amended.  With no registered function and a token list that holds at
  least the program path, \<^verbatim>\<open>_setup\<close> raises the built-in \<^verbatim>\<open>NotImplementedError\<close>, which
  is not a \<^verbatim>\<open>PyoptError\<close>.
\<close>

theorem Exposer_setup_no_functions:
  "functions_dict e = [] \<Longrightarrow> tokens_of c \<noteq> [] \<Longrightarrow>
   Exposer_setup e c = Inl (NotImplementedError ''No functions were decorated for command-line usage.'')
   \<and> \<not> is_PyoptError (NotImplementedError ''No functions were decorated for command-line usage.'')"
  by (cases "tokens_of c") (simp_all add: Exposer_setup_def Let_def)

theorem Exposer_setup_no_functions_witness:
  "Exposer_setup (Exposer_init id [] [] [] str_t) (Str ''/usr/bin/prog -h'')
     = Inl (NotImplementedError ''No functions were decorated for command-line usage.'')"
proof -
  have 1: "functions_dict (Exposer_init id [] [] [] str_t) = []" by (simp add: Exposer_init_def)
  have 2: "tokens_of (Str ''/usr/bin/prog -h'') \<noteq> []" by code_simp
  from Exposer_setup_no_functions [OF 1 2] show ?thesis by simp
qed

text \<open>
  The claim as first stated holds for every token list and puts the error in the family
  of \<^verbatim>\<open>PyoptError\<close>.  With no function registered, the empty token list raises the
  \<^verbatim>\<open>IndexError\<close> of \<^verbatim>\<open>cmd_args[0]\<close>, and the error of a token list with a program path is
  outside the family.
\<close>

theorem Exposer_setup_no_functions_counterexample:
  "functions_dict (Exposer_init id [] [] [] str_t) = [] \<and>
   Exposer_setup (Exposer_init id [] [] [] str_t) (Tokens [])
     = Inl (IndexError ''list index out of range'') \<and>
   Exposer_setup (Exposer_init id [] [] [] str_t) (Tokens [''prog''])
     = Inl (NotImplementedError ''No functions were decorated for command-line usage.'') \<and>
   \<not> is_PyoptError (NotImplementedError ''No functions were decorated for command-line usage.'')"
  by (simp add: Exposer_setup_def Exposer_init_def tokens_of_def Let_def)

text \<open>When the usage texts and the option specifications are built without an exception.\<close>

lemma dict_keys_set: "fst ` set (dict_set d k v) = insert k (fst ` set d)"
  by (simp add: dom_map_of_conv_image_fst [symmetric] map_of_dict_set)

lemma shortcuts_loop_ok:
  "\<forall>n \<in> set ns. n \<noteq> [] \<Longrightarrow>
   \<exists>s. shortcuts_loop ns d = Inr s \<and> (\<forall>n \<in> set ns. dict_has s (hd n))
        \<and> (\<forall>c. dict_has d c \<longrightarrow> dict_has s c)"
proof (induction ns arbitrary: d)
  case Nil
  then show ?case by simp
next
  case (Cons n ns)
  then obtain c cs where n: "n = c # cs" by (cases n) auto
  from Cons.prems have "\<forall>n \<in> set ns. n \<noteq> []" by simp
  from Cons.IH [OF this, of "dict_set d c (c # cs)"] obtain s where
    s: "shortcuts_loop ns (dict_set d c (c # cs)) = Inr s" "\<forall>n \<in> set ns. dict_has s (hd n)"
       "\<forall>c'. dict_has (dict_set d c (c # cs)) c' \<longrightarrow> dict_has s c'"
    by blast
  then show ?case by (auto simp: n dict_has_set)
qed

lemma required_shorts_ok: "\<forall>n \<in> set ns. n \<noteq> [] \<Longrightarrow> \<exists>s. required_shorts ns = Inr s"
proof (induction ns)
  case Nil
  then show ?case by simp
next
  case (Cons n ns)
  then obtain c cs where n: "n = c # cs" by (cases n) auto
  from Cons show ?case by (auto simp: n)
qed

lemma collect_switch_repr:
  "\<forall>a \<in> set xs. a \<noteq> [] \<Longrightarrow> \<exists>ys. collect (\<lambda>arg. switch_repr l (t arg) arg) xs = Inr ys"
proof (induction xs)
  case Nil
  then show ?case by simp
next
  case (Cons a xs)
  then obtain c cs where a: "a = c # cs" by (cases a) auto
  from Cons show ?case by (auto simp: a switch_repr_def)
qed

lemma var_doc_match_name:
  "var_doc_match names s = Some (n, d) \<Longrightarrow> names \<noteq> [] \<Longrightarrow> n \<in> set names"
  by (auto simp: var_doc_match_def find_Some_iff split: option.splits)

lemma doc_loop_keys:
  "names \<noteq> [] \<Longrightarrow> fst ` set (snd (doc_loop names els fl d)) \<subseteq> set names \<union> fst ` set d"
proof (induction els arbitrary: fl d)
  case Nil
  then show ?case by simp
next
  case (Cons el els)
  obtain i ln where el: "el = (i, ln)" by (cases el)
  show ?case
  proof (cases "var_doc_match names (strip ln)")
    case None
    then show ?thesis using Cons by (simp add: el)
  next
    case (Some md)
    obtain m doc where md: "md = (m, doc)" by (cases md)
    let ?X = "fst ` set (snd (doc_loop names els (if i < fl then i else fl) (dict_set d m (strip doc))))"
    have m: "m \<in> set names" using var_doc_match_name Some md Cons.prems by blast
    have "?X \<subseteq> set names \<union> fst ` set (dict_set d m (strip doc))"
      using Cons.IH [OF Cons.prems] .
    then have "?X \<subseteq> set names \<union> insert m (fst ` set d)" by (simp only: dict_keys_set)
    with m have "?X \<subseteq> set names \<union> fst ` set d" by blast
    then show ?thesis using Some by (simp add: el md)
  qed
qed

lemma parse_docstring_keys:
  "fn_args f \<noteq> [] \<Longrightarrow> fst ` set (snd (parse_docstring f)) \<subseteq> set (fn_args f)"
  using doc_loop_keys [of "fn_args f" _ _ "[]"]
  by (simp add: parse_docstring_def Let_def case_prod_unfold)

lemma usage_lines_loop_ok:
  "\<forall>p \<in> set ds. fst p \<noteq> [] \<and> dict_has s (hd (fst p)) \<Longrightarrow> \<exists>ls. usage_lines_loop s ds acc = Inr ls"
proof (induction ds arbitrary: acc)
  case Nil
  then show ?case by simp
next
  case (Cons p ds)
  obtain n ex where p: "p = (n, ex)" by (cases p)
  from Cons.prems obtain c cs where n: "n = c # cs" by (cases n) (auto simp: p)
  from Cons.prems obtain m where m: "dict_get s c = Some m"
    by (auto simp: p n dict_has_def dict_get_def)
  from Cons.prems have "\<forall>p \<in> set ds. fst p \<noteq> [] \<and> dict_has s (hd (fst p))" by simp
  from Cons.IH [OF this] show ?case by (simp add: p n m)
qed

lemma init_fields:
  "strategy (FunctionWrapper_init it k f dc) = k"
  "py_function (FunctionWrapper_init it k f dc) = f"
  "booleans (FunctionWrapper_init it k f dc)
     = filter (is_bool (casts (FunctionWrapper_init it k f dc))) (fn_args f)"
  "required (FunctionWrapper_init it k f dc)
     = filter (\<lambda>a. a \<notin> set (booleans (FunctionWrapper_init it k f dc)))
         (slice_to (fn_args f) (int (length (fn_args f)) - int (length (fn_defaults f))))"
  "optional (FunctionWrapper_init it k f dc)
     = it (remdups (filter (\<lambda>a. a \<notin> set (required (FunctionWrapper_init it k f dc))) (fn_args f)))"
  by (simp_all add: FunctionWrapper_init_def Let_def)

lemma kwargs_empty_not_enough:
  assumes sc: "shortcuts w = Inr s"
    and disj: "\<forall>r \<in> set (required w). r \<notin> set (booleans w)"
    and req: "required w \<noteq> []"
  shows "\<exists>m. KwargsFunction_parse w [] = Inl (NotEnoughArgs m)"
proof -
  have "filter (\<lambda>arg. \<not> dict_has (preseed w) arg) (required w) = required w"
    using disj dict_get_preseed [of w] by (auto simp: dict_has_def dict_get_def filter_id_conv)
  then show ?thesis using req
    by (simp add: KwargsFunction_parse_def sc kw_loop_done Let_def)
qed

lemma mixed_empty_not_enough:
  assumes sc: "shortcuts w = Inr s"
    and ss: "shorts_str w = Inr sh"
    and req: "required w \<noteq> []"
  shows "\<exists>m. MixedFunction_parse w [] = Inl (NotEnoughArgs m)"
  using req
  by (simp add: MixedFunction_parse_def sc ss getopt_def mixed_assign_def Let_def dict_has_def)

lemma args_empty_not_enough:
  "0 < needed_args w \<Longrightarrow> \<exists>m. ArgsFunction_parse w [] = Inl (NotEnoughArgs m)"
  by (simp add: ArgsFunction_parse_def)

lemma parse_empty_not_enough:
  fixes f :: pyfunction and it :: "string list \<Rightarrow> string list" and k :: strategy and dc :: cast
  defines "w \<equiv> FunctionWrapper_init it k f dc"
  assumes names: "\<forall>n \<in> set (fn_args f). n \<noteq> []"
    and defs: "length (fn_defaults f) \<le> length (fn_args f)"
    and req: "required w \<noteq> []"
  shows "\<exists>m. parse w [] = Inl (NotEnoughArgs m)"
proof -
  have an: "arg_names w = fn_args f" by (simp add: w_def init_arg_names)
  have rs: "set (required w) \<subseteq> set (fn_args f)"
    unfolding w_def by (rule init_required_subset)
  from shortcuts_loop_ok [OF names, of "[]"] obtain s where sc: "shortcuts w = Inr s"
    by (auto simp: shortcuts_def an)
  have "\<forall>n \<in> set (required w). n \<noteq> []" using rs names by blast
  from required_shorts_ok [OF this] obtain sh where ss: "shorts_str w = Inr sh"
    by (auto simp: shorts_str_def)
  have disj: "\<forall>r \<in> set (required w). r \<notin> set (booleans w)"
    unfolding w_def by (subst init_fields(4)) simp
  have need: "0 < needed_args w"
  proof -
    let ?n = "int (length (fn_args f)) - int (length (fn_defaults f))"
    have "slice_to (fn_args f) ?n \<noteq> []"
      using req unfolding w_def by (subst (asm) init_fields(4)) auto
    then have "0 < ?n" using defs by (auto simp: slice_to_def split: if_splits)
    then show ?thesis by (simp add: w_def init_needed_args)
  qed
  show ?thesis
  proof (cases k)
    case Args
    then show ?thesis using args_empty_not_enough [OF need]
      by (simp add: parse_def w_def init_fields(1))
  next
    case Mixed
    then show ?thesis using mixed_empty_not_enough [OF sc ss req]
      by (simp add: parse_def w_def init_fields(1))
  next
    case Kwargs
    then show ?thesis using kwargs_empty_not_enough [OF sc disj req]
      by (simp add: parse_def w_def init_fields(1))
  qed
qed

lemma shortcuts_loop_names: "shortcuts_loop ns d = Inr s \<Longrightarrow> \<forall>n \<in> set ns. n \<noteq> []"
proof (induction ns arbitrary: d)
  case Nil
  then show ?case by simp
next
  case (Cons n ns)
  then show ?case by (cases n) auto
qed

lemma shortcuts_loop_error: "shortcuts_loop ns d = Inl e \<Longrightarrow> \<exists>m. e = IndexError m"
proof (induction ns arbitrary: d)
  case Nil
  then show ?case by simp
next
  case (Cons n ns)
  then show ?case by (cases n) auto
qed

lemma usage_ok:
  fixes f :: pyfunction and it :: "string list \<Rightarrow> string list" and k :: strategy and dc :: cast
  defines "w \<equiv> FunctionWrapper_init it k f dc"
  assumes perm: "\<forall>xs. set (it xs) = set xs"
    and names: "k = Args \<or> (\<forall>n \<in> set (fn_args f). n \<noteq> []) \<and> fn_args f \<noteq> []"
    and fe: "func e = Some w"
  shows "\<exists>u. func_usage e = Inr u"
proof -
  have an: "arg_names w = fn_args f" by (simp add: w_def init_arg_names)
  have st: "strategy w = k" by (simp add: w_def init_fields(1))
  have rs: "set (required w) \<subseteq> set (fn_args f)"
    unfolding w_def by (rule init_required_subset)
  have bs: "set (booleans w) \<subseteq> set (fn_args f)"
    unfolding w_def by (subst init_fields(3)) auto
  have os: "set (optional w) \<subseteq> set (fn_args f)"
    unfolding w_def by (subst init_fields(5)) (auto simp: perm)
  have pr: "\<exists>r. parameters_repr w = Inr r"
  proof (cases "k = Args")
    case True
    then show ?thesis by (simp add: parameters_repr_def st)
  next
    case False
    with names have ne: "\<forall>n \<in> set (fn_args f). n \<noteq> []" by blast
    have r1: "\<forall>a \<in> set (required w). a \<noteq> []" using rs ne by blast
    have r2: "\<forall>a \<in> set (filter (\<lambda>arg. arg \<notin> set (booleans w)) (optional w)). a \<noteq> []"
      using os ne by auto
    have r3: "\<forall>a \<in> set (booleans w). a \<noteq> []" using bs ne by blast
    from collect_switch_repr [OF r1, of "''-''" "\<lambda>arg. '' '' @ arg"]
      collect_switch_repr [OF r2, of "''[-''" "\<lambda>arg. '' '' @ arg @ '']''"]
      collect_switch_repr [OF r3, of "''[-''" "\<lambda>arg. '']''"]
    show ?thesis using False by (cases k) (auto simp: parameters_repr_def st)
  qed
  have du: "\<exists>d. docstring_usage w = Inr d"
  proof (cases "k = Args")
    case True
    then show ?thesis by (simp add: docstring_usage_def st case_prod_unfold Let_def)
  next
    case False
    with names have ne: "\<forall>n \<in> set (fn_args f). n \<noteq> []" and nn: "fn_args f \<noteq> []" by blast+
    obtain summary docs_dict where pd: "parse_docstring (py_function w) = (summary, docs_dict)"
      by (cases "parse_docstring (py_function w)")
    have keys: "fst ` set docs_dict \<subseteq> set (fn_args f)"
      using parse_docstring_keys [OF nn] pd by (simp add: w_def init_fields(2))
    from shortcuts_loop_ok [OF ne, of "[]"] obtain s where
      sc: "shortcuts w = Inr s" and has: "\<forall>n \<in> set (fn_args f). dict_has s (hd n)"
      by (auto simp: shortcuts_def an)
    have "\<forall>p \<in> set docs_dict. fst p \<noteq> [] \<and> dict_has s (hd (fst p))"
      using keys ne has by fastforce
    from usage_lines_loop_ok [OF this, of "[summary]"] obtain ls where
      "usage_lines_loop s docs_dict [summary] = Inr ls" by blast
    then show ?thesis using False
      by (cases k) (simp_all add: docstring_usage_def pd sc st)
  qed
  from pr du show ?thesis by (auto simp: func_usage_def single_usage_def get_usage_def fe)
qed

text \<open>
  A wrapper whose parse of no token raises \<^verbatim>\<open>NotEnoughArgs\<close> has passed \<^verbatim>\<open>_shortcuts\<close>,
  unless it is positional, and has a parameter.
\<close>

lemma not_enough_names:
  fixes f :: pyfunction and it :: "string list \<Rightarrow> string list" and k :: strategy and dc :: cast
  defines "w \<equiv> FunctionWrapper_init it k f dc"
  assumes ne: "parse w [] = Inl (NotEnoughArgs m)"
  shows "k = Args \<or> (\<forall>n \<in> set (fn_args f). n \<noteq> []) \<and> fn_args f \<noteq> []"
proof (cases "k = Args")
  case True
  then show ?thesis by simp
next
  case False
  have an: "arg_names w = fn_args f" by (simp add: w_def init_arg_names)
  have st: "strategy w = k" by (simp add: w_def init_fields(1))
  have rs: "set (required w) \<subseteq> set (fn_args f)"
    unfolding w_def by (rule init_required_subset)
  from ne False obtain s where sc: "shortcuts w = Inr s"
    by (cases k; cases "shortcuts w")
       (auto simp: parse_def st KwargsFunction_parse_def MixedFunction_parse_def shortcuts_def
          dest: shortcuts_loop_error)
  then have names: "\<forall>n \<in> set (fn_args f). n \<noteq> []"
    using shortcuts_loop_names [of "fn_args f" "[]" s] by (simp add: shortcuts_def an)
  have "required w \<noteq> []"
  proof
    assume r: "required w = []"
    show False
    proof (cases k)
      case Args
      with False show ?thesis by simp
    next
      case Mixed
      with ne show ?thesis
        by (auto simp: parse_def st MixedFunction_parse_def sc shorts_str_def r getopt_def
            mixed_assign_def Let_def)
    next
      case Kwargs
      with ne show ?thesis
        by (auto simp: parse_def st KwargsFunction_parse_def sc r kw_loop_done Let_def)
    qed
  qed
  with rs have "fn_args f \<noteq> []" by auto
  with names False show ?thesis by blast
qed

text \<open>
  Claim C1.  After a successful \<^verbatim>\<open>_setup\<close>, when the parse of the selected function
  raises \<^verbatim>\<open>NotEnoughArgs\<close>: with no raw argument the usage text of that function is
  built without an exception and \<^verbatim>\<open>parse_args\<close> raises \<^verbatim>\<open>PrintHelp\<close> with it, and with
  some raw argument the \<^verbatim>\<open>NotEnoughArgs\<close> leaves as it is.  And for a single registered
  function with a required parameter (its parameter names not empty and no more
  defaults than parameters, as for every Python function) and a token list that holds
  the program path alone: the parse of the function raises \<^verbatim>\<open>NotEnoughArgs\<close>, and
  \<^verbatim>\<open>parse_args\<close> raises \<^verbatim>\<open>PrintHelp\<close> with the usage text.  The wrapper is the one that
  registration builds, for an iteration order \<open>it\<close> that lists the elements of a set.
\<close>

theorem parse_args_empty_arguments:
  fixes f :: pyfunction and it :: "string list \<Rightarrow> string list" and k :: strategy and dc :: cast
  defines "w \<equiv> FunctionWrapper_init it k f dc"
  assumes perm: "\<forall>xs. set (it xs) = set xs"
  shows
    "(Exposer_setup e0 c = Inr e \<and> func e = Some w \<and> parse w (raw_args e) = Inl (NotEnoughArgs m) \<longrightarrow>
        (raw_args e = [] \<longrightarrow> (\<exists>u. func_usage e = Inr u \<and> parse_args e0 c = Inl (PrintHelp u))) \<and>
        (raw_args e \<noteq> [] \<longrightarrow> parse_args e0 c = Inl (NotEnoughArgs m)))
     \<and>
     (functions_dict e1 = [(nm, w)] \<and>
      (\<forall>n \<in> set (fn_args f). n \<noteq> []) \<and> length (fn_defaults f) \<le> length (fn_args f) \<and>
      required w \<noteq> [] \<and> tokens_of c1 = [prog] \<longrightarrow>
        (\<exists>m'. parse w [] = Inl (NotEnoughArgs m')) \<and>
        (\<exists>u'. parse_args e1 c1 = Inl (PrintHelp u') \<and>
              func_usage (e1\<lparr>cmd_args := [prog], script_name := basename prog, is_single := True,
                              raw_args := [], func := Some w\<rparr>) = Inr u'))"
proof -
  have a: "\<exists>u. func_usage e = Inr u \<and> parse_args e0 c = Inl (PrintHelp u)"
    if su: "Exposer_setup e0 c = Inr e" and fe: "func e = Some w"
      and ne: "parse w (raw_args e) = Inl (NotEnoughArgs m)" and ra: "raw_args e = []"
  proof -
    from ne ra have "parse w [] = Inl (NotEnoughArgs m)" by simp
    from not_enough_names [OF this [unfolded w_def]]
    have "k = Args \<or> (\<forall>n \<in> set (fn_args f). n \<noteq> []) \<and> fn_args f \<noteq> []" .
    from usage_ok [OF perm this, of e dc] fe obtain u where u: "func_usage e = Inr u"
      by (auto simp: w_def)
    then have "parse_args e0 c = Inl (PrintHelp u)"
      using su fe ne ra by (simp add: parse_args_def raise_help_def)
    with u show ?thesis by blast
  qed
  have b: "parse_args e0 c = Inl (NotEnoughArgs m)"
    if "Exposer_setup e0 c = Inr e" "func e = Some w" "parse w (raw_args e) = Inl (NotEnoughArgs m)"
      "raw_args e \<noteq> []"
    using that by (simp add: parse_args_def)
  have s: "(\<exists>m'. parse w [] = Inl (NotEnoughArgs m')) \<and>
        (\<exists>u'. parse_args e1 c1 = Inl (PrintHelp u') \<and>
              func_usage (e1\<lparr>cmd_args := [prog], script_name := basename prog, is_single := True,
                              raw_args := [], func := Some w\<rparr>) = Inr u')"
    if fd: "functions_dict e1 = [(nm, w)]"
      and names: "\<forall>n \<in> set (fn_args f). n \<noteq> []"
      and defs: "length (fn_defaults f) \<le> length (fn_args f)"
      and req: "required w \<noteq> []" and toks: "tokens_of c1 = [prog]"
  proof -
    let ?e = "e1\<lparr>cmd_args := [prog], script_name := basename prog, is_single := True,
                  raw_args := [], func := Some w\<rparr>"
    have st: "Exposer_setup e1 c1 = Inr ?e"
      by (simp add: Exposer_setup_def toks fd Let_def)
    from parse_empty_not_enough [OF names defs, of it k dc] req obtain m' where
      pe: "parse w [] = Inl (NotEnoughArgs m')" by (auto simp: w_def)
    have "fn_args f \<noteq> []"
      using req init_required_subset [of it k f dc] by (auto simp: w_def)
    with names have "k = Args \<or> (\<forall>n \<in> set (fn_args f). n \<noteq> []) \<and> fn_args f \<noteq> []" by blast
    from usage_ok [OF perm this, of ?e dc] obtain u' where
      fu: "func_usage ?e = Inr u'" by (auto simp: w_def)
    have "parse_args e1 c1 = Inl (PrintHelp u')"
      by (simp add: parse_args_def st pe fu raise_help_def)
    with pe fu show ?thesis by blast
  qed
  show ?thesis using a b s by blast
qed

theorem parse_args_empty_arguments_witness:
  "parse_args (Exposer_init id [greet] [] [] str_t) (Tokens [''/usr/bin/prog''])
     = Inl (PrintHelp (''Usage: prog -n name [-d]'' @ [CHR 0x0A])) \<and>
   parse_args (Exposer_init id [greet] [] [] str_t) (Tokens [''/usr/bin/prog'', ''-d''])
     = Inl (NotEnoughArgs ''The following options are required: name.'') \<and>
   parse_args (Exposer_init id [greet] [] [] str_t) (Tokens [''/usr/bin/prog'', ''-''])
     = Inl (NotEnoughArgs ''The following options are required: name.'')"
proof -
  let ?w = "FunctionWrapper_init id Kwargs greet str_t"
  let ?e1 = "Exposer_init id [greet] [] [] str_t"
  let ?e = "?e1\<lparr>cmd_args := [''/usr/bin/prog''], script_name := basename ''/usr/bin/prog'',
                  is_single := True, raw_args := [], func := Some ?w\<rparr>"
  let ?e' = "?e1\<lparr>cmd_args := [''/usr/bin/prog'', ''-d''], script_name := basename ''/usr/bin/prog'',
                  is_single := True, raw_args := [''-d''], func := Some ?w\<rparr>"
  have perm: "\<forall>xs :: string list. set (id xs) = set xs" by simp
  have fd: "functions_dict ?e1 = [(''greet'', ?w)]"
    by (simp add: Exposer_init_def Exposer_kwargs_def greet_def)
  have h: "\<forall>n \<in> set (fn_args greet). n \<noteq> []"
    "length (fn_defaults greet) \<le> length (fn_args greet)"
    by (simp_all add: greet_def)
  have req: "required ?w = [''name'']" by code_simp
  have t: "tokens_of (Tokens [''/usr/bin/prog'']) = [''/usr/bin/prog'']"
    by (simp add: tokens_of_def)
  have fu: "func_usage ?e = Inr (''Usage: prog -n name [-d]'' @ [CHR 0x0A])"
    by code_simp
  have st: "Exposer_setup ?e1 (Tokens [''/usr/bin/prog'']) = Inr ?e"
    by (simp add: Exposer_setup_def tokens_of_def fd Let_def)
  have p: "parse ?w [] = Inl (NotEnoughArgs ''The following options are required: name.'')"
    by code_simp
  have st': "Exposer_setup ?e1 (Tokens [''/usr/bin/prog'', ''-d'']) = Inr ?e'"
    by (simp add: Exposer_setup_def tokens_of_def fd Let_def HELP_SET_def)
  have p': "parse ?w [''-d''] = Inl (NotEnoughArgs ''The following options are required: name.'')"
    by code_simp
  have first: "parse_args ?e1 (Tokens [''/usr/bin/prog''])
      = Inl (PrintHelp (''Usage: prog -n name [-d]'' @ [CHR 0x0A]))"
    using parse_args_empty_arguments [where it = id and f = greet and k = Kwargs and dc = str_t
        and ?e0.0 = ?e1 and c = "Tokens [''/usr/bin/prog'']" and e = ?e
        and m = "''The following options are required: name.''", OF perm, THEN conjunct1]
      st p fu
    by auto
  have second: "parse_args ?e1 (Tokens [''/usr/bin/prog'', ''-d''])
      = Inl (NotEnoughArgs ''The following options are required: name.'')"
    using parse_args_empty_arguments [where it = id and f = greet and k = Kwargs and dc = str_t
        and ?e0.0 = ?e1 and c = "Tokens [''/usr/bin/prog'', ''-d'']" and e = ?e'
        and m = "''The following options are required: name.''", OF perm, THEN conjunct1]
      st' p'
    by simp
  let ?h = "?e1\<lparr>cmd_args := [''/usr/bin/prog'', ''-''], script_name := basename ''/usr/bin/prog'',
                  is_single := True, raw_args := [''-''], func := Some ?w\<rparr>"
  have sth: "Exposer_setup ?e1 (Tokens [''/usr/bin/prog'', ''-'']) = Inr ?h"
    by (simp add: Exposer_setup_def tokens_of_def fd Let_def HELP_SET_def)
  have ph: "parse ?w [''-''] = Inl (NotEnoughArgs ''The following options are required: name.'')"
    by code_simp
  have hyphen: "parse_args ?e1 (Tokens [''/usr/bin/prog'', ''-''])
      = Inl (NotEnoughArgs ''The following options are required: name.'')"
    using parse_args_empty_arguments [where it = id and f = greet and k = Kwargs and dc = str_t
        and ?e0.0 = ?e1 and c = "Tokens [''/usr/bin/prog'', ''-'']" and e = ?h
        and m = "''The following options are required: name.''", OF perm, THEN conjunct1]
      sth ph
    by simp
  have third: "\<exists>u'. parse_args ?e1 (Tokens [''/usr/bin/prog'']) = Inl (PrintHelp u')"
    using parse_args_empty_arguments [where it = id and f = greet and k = Kwargs and dc = str_t
        and ?e1.0 = ?e1 and nm = "''greet''" and ?c1.0 = "Tokens [''/usr/bin/prog'']"
        and prog = "''/usr/bin/prog''", OF perm, THEN conjunct2]
      fd h req t
    by auto
  from first second hyphen third show ?thesis by simp
qed

end
